theory Spec2Isabelle
  imports Main
begin

section \<open>The contact model (src/app/models/contact.js)\<close>

text \<open>
  A string attribute of a record is either absent (\<open>undefined\<close> or \<open>null\<close> in the
  source, \<open>None\<close> here) or a string. JavaScript's truthiness on such a value: absent
  and the empty string are falsy, every other string is truthy.
\<close>

record contact =
  firstName :: "string option"
  lastName :: "string option"
  email :: "string option"
  twitter :: "string option"

fun truthy :: "string option \<Rightarrow> bool" where
  "truthy None = False"
| "truthy (Some s) = (s \<noteq> [])"

text \<open>
  The string a truthy attribute contributes to a concatenation. It is only evaluated
  under a \<open>truthy\<close> guard, so the \<open>None\<close> equation is never reached by \<open>fullName\<close>.
\<close>

fun text_of :: "string option \<Rightarrow> string" where
  "text_of None = ''undefined''"
| "text_of (Some s) = s"

definition fullName :: "contact \<Rightarrow> string" where
  "fullName this =
     (let firstName = firstName this;
          lastName = lastName this
      in if truthy firstName \<and> truthy lastName then text_of firstName @ '' '' @ text_of lastName
         else if truthy firstName then text_of firstName
         else if truthy lastName then text_of lastName
         else ''(No name)'')"

section \<open>The world of the configuration service (the service in src/app/routes/contact.js)\<close>

text \<open>
  The service only sequences calls into the data-orchestration library, the browser and
  the console. Each such call is recorded, in order, as an event of a trace; what the
  service reads back from the library (whether the coordinator is activated, its
  sources and strategies) is kept as explicit state.
\<close>

datatype error = NetworkError string | ClientError string | OtherError string

fun instanceof_NetworkError :: "error \<Rightarrow> bool" where
  "instanceof_NetworkError (NetworkError _) = True"
| "instanceof_NetworkError _ = False"

record transform_options =
  label :: "string option"

record transform =
  transform_id :: string
  options :: "transform_options option"

datatype bucket_class = IndexedDBBucket | LocalStorageBucket

record bucket =
  bucket_class :: bucket_class
  bucket_namespace :: string

datatype source_class = Store | JSONAPISource | IndexedDBSource | LocalStorageSource

text \<open>
  A source as the service constructs it: its class and the settings \<open>name\<close>,
  \<open>namespace\<close> and \<open>bucket\<close>. The injected \<open>keyMap\<close> and \<open>schema\<close> services are passed
  through unchanged and are left out.
\<close>

record source =
  source_class :: source_class
  name :: string
  namespace :: "string option"
  source_bucket :: "bucket option"

text \<open>
  The three function-valued options the service hands to request strategies: the
  \<open>catch\<close> of the query strategy, the \<open>catch\<close> of the pessimistic update strategy and the
  \<open>action\<close> of the \<open>pushFail\<close> strategy. In the options of a request strategy,
  \<open>from_source\<close> and \<open>on_event\<close> stand for the options \<open>source\<close> and \<open>on\<close>.
\<close>

datatype handler = CatchPull | CatchPush | PushFailAction

datatype action = ActionName string | ActionFunction handler

record request_options =
  from_source :: string
  on_event :: string
  target :: "string option"
  action :: action
  blocking :: bool
  catch :: "handler option"

datatype strategy =
    EventLoggingStrategy
  | LogTruncationStrategy
  | SyncStrategy string string bool  \<comment> \<open>source, target, blocking\<close>
  | RequestStrategy request_options

datatype logarg = S string | E error

datatype timer_callback = RetryRemoteRequestQueue

datatype event =
    ConsoleLog "logarg list"
  | Deactivate  \<comment> \<open>\<open>coordinator.deactivate()\<close>\<close>
  | Activate  \<comment> \<open>\<open>coordinator.activate()\<close>\<close>
  | SourceReset string  \<comment> \<open>\<open>source.reset()\<close>\<close>
  | RemoveStrategy strategy
  | AddStrategy strategy
  | RemoveSource string
  | AddSource source
  | TransformLogClear string  \<comment> \<open>\<open>source.transformLog.clear()\<close>\<close>
  | RequestQueueClear string
  | SyncQueueClear string
  | CacheReset string
  | LocalStorageSetItem string string
  | SetFetch  \<comment> \<open>\<open>Orbit.fetch = fetch\<close>\<close>
  | PullRecords string  \<comment> \<open>\<open>source.pull(oqb.records())\<close>\<close>
  | SourceSync string "transform list"  \<comment> \<open>\<open>source.sync(transform)\<close>\<close>
  | RequestQueueSkip string
  | RequestQueueRetry string
  | Alert string
  | SetTimeout timer_callback nat  \<comment> \<open>callback, delay in milliseconds\<close>
  | StoreRollback string int  \<comment> \<open>\<open>store.rollback(transformId, relativePosition)\<close>\<close>

text \<open>
  What the service cannot decide itself: whether the browser provides IndexedDB, which of
  the library's promises reject (as a function of the calls made so far and the call at
  hand), and what a pull from the backup source yields.
\<close>

record env =
  indexedDB :: bool
  rejects :: "event list \<Rightarrow> event \<Rightarrow> bool"
  pulled :: "transform list"

text \<open>
  The service's own properties \<open>mode\<close> and \<open>bucket\<close>; the coordinator's \<open>activated\<close>,
  \<open>sources\<close> and \<open>strategies\<close>; the browser's \<open>localStorage\<close>; and the trace.
\<close>

record state =
  mode :: "string option"
  bucket :: "bucket option"
  activated :: bool
  sources :: "source list"
  strategies :: "strategy list"
  localStorage :: "string \<rightharpoonup> string"
  trace :: "event list"

datatype settled = Fulfilled | Rejected

datatype ret = Undefined | Promise settled

record available_mode =
  mode_id :: string
  description :: string

definition availableModes :: "available_mode list" where
  "availableModes =
     [\<lparr>mode_id = ''memory-only'', description = ''store''\<rparr>,
      \<lparr>mode_id = ''offline-only'', description = ''store + backup''\<rparr>,
      \<lparr>mode_id = ''pessimistic-server'', description = ''store + remote''\<rparr>,
      \<lparr>mode_id = ''optimistic-server'', description = ''store + remote + backup''\<rparr>]"

subsection \<open>Calls into the library\<close>

definition emit :: "event \<Rightarrow> state \<Rightarrow> state" where
  "emit e s = s\<lparr>trace := trace s @ [e]\<rparr>"

text \<open>A call whose promise the service waits for: it is recorded, and settles as the
  environment says.\<close>

definition call :: "env \<Rightarrow> event \<Rightarrow> state \<Rightarrow> settled \<times> state" where
  "call env e s = (if rejects env (trace s) e then Rejected else Fulfilled, emit e s)"

text \<open>\<open>promise.then(f)\<close>: \<open>f\<close> runs only when the promise is fulfilled; a rejection is
  passed on.\<close>

definition then_promise :: "settled \<times> state \<Rightarrow> (state \<Rightarrow> settled \<times> state) \<Rightarrow> settled \<times> state" where
  "then_promise p f = (case p of (Fulfilled, s) \<Rightarrow> f s | (Rejected, s) \<Rightarrow> (Rejected, s))"

text \<open>
  The coordinator's bookkeeping, as far as the service reads it back. The coordinator
  keeps the promise of its activation as the \<open>activated\<close> flag, so the flag reads as set
  from the call of \<open>activate\<close> on, also when that promise rejects; a rejected deactivation
  leaves the flag as it was. The library keys a strategy and a source by name; a strategy
  is identified here by its options. The library refuses a second strategy or source of
  a name it already holds; \<open>addStrategy\<close> and \<open>addSource\<close> below are those of a coordinator
  where no such clash arises, as after \<open>clearActiveConfiguration\<close> on an activated
  coordinator, or on one that holds the store only.
\<close>

definition activate :: "env \<Rightarrow> state \<Rightarrow> settled \<times> state" where
  "activate env s =
     (case call env Activate s of (outcome, s') \<Rightarrow> (outcome, s'\<lparr>activated := True\<rparr>))"

definition deactivate :: "env \<Rightarrow> state \<Rightarrow> settled \<times> state" where
  "deactivate env s =
     (case call env Deactivate s of
        (Fulfilled, s') \<Rightarrow> (Fulfilled, s'\<lparr>activated := False\<rparr>)
      | (Rejected, s') \<Rightarrow> (Rejected, s'))"

definition addStrategy :: "strategy \<Rightarrow> state \<Rightarrow> state" where
  "addStrategy st s = (emit (AddStrategy st) s)\<lparr>strategies := strategies s @ [st]\<rparr>"

definition removeStrategy :: "strategy \<Rightarrow> state \<Rightarrow> state" where
  "removeStrategy st s = (emit (RemoveStrategy st) s)\<lparr>strategies := removeAll st (strategies s)\<rparr>"

definition addSource :: "source \<Rightarrow> state \<Rightarrow> state" where
  "addSource src s = (emit (AddSource src) s)\<lparr>sources := sources s @ [src]\<rparr>"

definition removeSource :: "string \<Rightarrow> state \<Rightarrow> state" where
  "removeSource n s = (emit (RemoveSource n) s)\<lparr>sources := filter (\<lambda>src. name src \<noteq> n) (sources s)\<rparr>"

definition getSource :: "string \<Rightarrow> state \<Rightarrow> source option" where
  "getSource n s = find (\<lambda>src. name src = n) (sources s)"

definition setItem :: "string \<Rightarrow> string \<Rightarrow> state \<Rightarrow> state" where
  "setItem k v s = (emit (LocalStorageSetItem k v) s)\<lparr>localStorage := (localStorage s)(k \<mapsto> v)\<rparr>"

subsection \<open>The service\<close>

text \<open>The declared defaults \<open>mode: null\<close> and \<open>bucket: null\<close>, with a coordinator that has
  not been activated and knows the store only, and an empty browser storage.\<close>

definition new_service :: state where
  "new_service =
     \<lparr>mode = None, bucket = None, activated = False,
      sources = [\<lparr>source_class = Store, name = ''store'', namespace = None, source_bucket = None\<rparr>],
      strategies = [], localStorage = Map.empty, trace = []\<rparr>"

text \<open>
  The import \<open>supportsIndexedDB\<close> of the library's IndexedDB package is a function:
  called, it tells whether the browser provides IndexedDB. The service never calls it:
  both of its tests, \<open>supportsIndexedDB ? A : B\<close>, read the function itself, and
  JavaScript takes every function for true.
\<close>

definition supportsIndexedDB :: "env \<Rightarrow> bool" where
  "supportsIndexedDB env = indexedDB env"

definition truthy_function :: "('a \<Rightarrow> 'b) \<Rightarrow> bool" where
  "truthy_function f = True"

definition init :: "env \<Rightarrow> state \<Rightarrow> state" where
  "init env s =
     (let BucketClass = (if truthy_function supportsIndexedDB then IndexedDBBucket else LocalStorageBucket);
          bucket = \<lparr>bucket_class = BucketClass, bucket_namespace = ''peeps-settings''\<rparr>
      in s\<lparr>bucket := Some bucket\<rparr>)"

text \<open>The strategies \<open>configure\<close> constructs, with the options of the source text.\<close>

definition pull_strategy :: "bool \<Rightarrow> strategy" where
  "pull_strategy pessimisticMode =
     RequestStrategy \<lparr>from_source = ''store'', on_event = ''beforeQuery'', target = Some ''remote'',
       action = ActionName ''pull'', blocking = pessimisticMode, catch = Some CatchPull\<rparr>"

definition pessimistic_push_strategy :: strategy where
  "pessimistic_push_strategy =
     RequestStrategy \<lparr>from_source = ''store'', on_event = ''beforeUpdate'', target = Some ''remote'',
       action = ActionName ''push'', blocking = True, catch = Some CatchPush\<rparr>"

definition optimistic_push_strategy :: strategy where
  "optimistic_push_strategy =
     RequestStrategy \<lparr>from_source = ''store'', on_event = ''beforeUpdate'', target = Some ''remote'',
       action = ActionName ''push'', blocking = False, catch = None\<rparr>"

definition pushFail_strategy :: strategy where
  "pushFail_strategy =
     RequestStrategy \<lparr>from_source = ''remote'', on_event = ''pushFail'', target = None,
       action = ActionFunction PushFailAction, blocking = True, catch = None\<rparr>"

text \<open>The body of \<open>coordinator.sources.forEach\<close> in \<open>clearActiveConfiguration\<close>.\<close>

definition reset_source :: "source \<Rightarrow> state \<Rightarrow> state" where
  "reset_source source s =
     (let s = emit (TransformLogClear (name source)) s;
          s = emit (RequestQueueClear (name source)) s;
          s = emit (SyncQueueClear (name source)) s
      in if name source = ''store'' then emit (CacheReset (name source)) s
         else removeSource (name source) s)"

text \<open>Both \<open>forEach\<close> loops run over the list the coordinator hands out when the loop
  starts, so removing an element inside the loop does not disturb the iteration.\<close>

definition clearActiveConfiguration :: "env \<Rightarrow> state \<Rightarrow> settled \<times> state" where
  "clearActiveConfiguration env s =
     (if activated s then
        then_promise
          (then_promise (deactivate env s)
             (\<lambda>s. let s = emit (ConsoleLog [S ''[orbit-configuration]'', S ''resetting browser storage'']) s
                  in case getSource ''backup'' s of
                       Some backup \<Rightarrow> call env (SourceReset (name backup)) s
                     | None \<Rightarrow> (Fulfilled, s)))
          (\<lambda>s. let s = emit (ConsoleLog [S ''[orbit-configuration]'', S ''resetting sources and strategies'']) s;
                   s = fold removeStrategy (strategies s) s;
                   s = fold reset_source (sources s) s
               in (Fulfilled, s))
      else (Fulfilled, s))"

text \<open>The remote branch of \<open>configure\<close> (\<open>mode\<close> is pessimistic-server or optimistic-server).\<close>

definition configure_remote :: "bucket option \<Rightarrow> bool \<Rightarrow> state \<Rightarrow> state" where
  "configure_remote bucket' pessimisticMode s =
     (let s = emit SetFetch s;
          remote = \<lparr>source_class = JSONAPISource, name = ''remote'', namespace = None, source_bucket = bucket'\<rparr>;
          s = addSource remote s;
          s = addStrategy (SyncStrategy ''remote'' ''store'' pessimisticMode) s;
          s = addStrategy (pull_strategy pessimisticMode) s
      in if pessimisticMode then addStrategy pessimistic_push_strategy s
         else addStrategy pushFail_strategy (addStrategy optimistic_push_strategy s))"

text \<open>The backup branch of \<open>configure\<close> (\<open>mode\<close> is offline-only or optimistic-server),
  with its chain of promises.\<close>

definition configure_backup :: "env \<Rightarrow> bucket option \<Rightarrow> state \<Rightarrow> settled \<times> state" where
  "configure_backup env bucket' s =
     (let BackupClass = (if truthy_function supportsIndexedDB then IndexedDBSource else LocalStorageSource);
          backup = \<lparr>source_class = BackupClass, name = ''backup'', namespace = Some ''peeps'', source_bucket = bucket'\<rparr>;
          s = addSource backup s;
          s = addStrategy (SyncStrategy ''store'' ''backup'' True) s
      in then_promise (activate env s)
           (\<lambda>s. then_promise
                  (then_promise
                     (then_promise
                        (then_promise (call env (PullRecords (name backup)) s)
                           (\<lambda>s. call env (SourceSync ''store'' (pulled env)) s))
                        (\<lambda>s. call env (TransformLogClear (name backup)) s))
                     (\<lambda>s. call env (TransformLogClear ''store'') s))
                  (\<lambda>s. activate env s)))"

text \<open>The function passed to \<open>then\<close> after \<open>clearActiveConfiguration\<close>.\<close>

definition configure_callback :: "env \<Rightarrow> string \<Rightarrow> bucket option \<Rightarrow> state \<Rightarrow> settled \<times> state" where
  "configure_callback env mode' bucket' s =
     (let s = s\<lparr>mode := Some mode'\<rparr>;
          s = setItem ''peeps-mode'' mode' s;
          pessimisticMode = (mode' = ''pessimistic-server'');
          s = addStrategy EventLoggingStrategy s;
          s = addStrategy LogTruncationStrategy s;
          s = (if mode' = ''pessimistic-server'' \<or> mode' = ''optimistic-server''
               then configure_remote bucket' pessimisticMode s else s)
      in if mode' = ''offline-only'' \<or> mode' = ''optimistic-server''
         then configure_backup env bucket' s
         else activate env s)"

definition configure :: "env \<Rightarrow> string \<Rightarrow> state \<Rightarrow> ret \<times> state" where
  "configure env mode' s =
     (if Some mode' = mode s then (Undefined, s)
      else
        let s = emit (ConsoleLog [S ''[orbit-configuration]'', S ''mode'', S mode']) s;
            bucket = bucket s;
            p = then_promise (clearActiveConfiguration env s) (configure_callback env mode' bucket)
        in (Promise (fst p), snd p))"

text \<open>\<open>getItem(key) || default\<close>: an absent item and an empty one both give the default.\<close>

definition or_default :: "string option \<Rightarrow> string \<Rightarrow> string" where
  "or_default v d = (if truthy v then text_of v else d)"

definition initialize :: "env \<Rightarrow> state \<Rightarrow> ret \<times> state" where
  "initialize env s =
     (let mode' = or_default (localStorage s ''peeps-mode'') ''offline-only''
      in configure env mode' s)"

subsection \<open>The failure handlers\<close>

datatype completion = Returned | Threw error

text \<open>
  The two \<open>catch\<close> functions. \<open>this\<close> is the strategy they belong to: \<open>this.source\<close> and
  \<open>this.target\<close> are the sources its options name. Without a target, reading
  \<open>this.target.requestQueue\<close> throws a TypeError.
\<close>

definition catch_with :: "string \<Rightarrow> request_options \<Rightarrow> error \<Rightarrow> event list \<times> completion" where
  "catch_with message this e =
     (case target this of
        Some t \<Rightarrow>
          ([ConsoleLog [S message, E e], RequestQueueSkip (from_source this), RequestQueueSkip t], Threw e)
      | None \<Rightarrow>
          ([ConsoleLog [S message, E e], RequestQueueSkip (from_source this)], Threw (OtherError ''TypeError'')))"

definition catch_pull :: "request_options \<Rightarrow> error \<Rightarrow> event list \<times> completion" where
  "catch_pull = catch_with ''error performing remote.pull''"

definition catch_push :: "request_options \<Rightarrow> error \<Rightarrow> event list \<times> completion" where
  "catch_push = catch_with ''error performing remote.push''"

text \<open>
  The \<open>action\<close> of the \<open>pushFail\<close> strategy. \<open>storeLog\<close> is the list of transform ids in the
  store's transform log; \<open>remote\<close> and \<open>store\<close> are the sources named so.
\<close>

definition pushFail_action :: "string list \<Rightarrow> transform \<Rightarrow> error \<Rightarrow> event list \<times> completion" where
  "pushFail_action storeLog transform e =
     (if instanceof_NetworkError e then
        ([ConsoleLog [S ''NetworkError - will try again soon''],
          SetTimeout RetryRemoteRequestQueue 5000], Returned)
      else
        let label = (case options transform of None \<Rightarrow> None | Some opts \<Rightarrow> label opts);
            alert = (if truthy label
                     then Alert (''Unable to complete '' @ [CHR 0x22] @ text_of label @ [CHR 0x22])
                     else Alert ''Unable to complete operation'');
            rollback = (if transform_id transform \<in> set storeLog
                        then [ConsoleLog [S ''Rolling back - transform:'', S (transform_id transform)],
                              StoreRollback (transform_id transform) (- 1)]
                        else [])
        in ([alert] @ rollback @ [RequestQueueSkip ''remote''], Returned))"

fun run_timer_callback :: "timer_callback \<Rightarrow> event list" where
  "run_timer_callback RetryRemoteRequestQueue = [RequestQueueRetry ''remote'']"

fun run_handler :: "handler \<Rightarrow> request_options \<Rightarrow> string list \<Rightarrow> transform \<Rightarrow> error \<Rightarrow> event list \<times> completion" where
  "run_handler CatchPull this storeLog request e = catch_pull this e"
| "run_handler CatchPush this storeLog request e = catch_push this e"
| "run_handler PushFailAction this storeLog request e = pushFail_action storeLog request e"

subsection \<open>How the library reaches the handlers\<close>

text \<open>
  The library's side of the strategy hooks, as far as failures of the remote source
  go. The library is not part of this repository: this is what its request strategies
  do with the options the service hands them. When a request \<open>req\<close> (\<open>push\<close> or \<open>pull\<close>) on the remote source fails, the remote
  source emits the event \<open>req\<close> followed by \<open>Fail\<close>, and a request strategy listening for
  it on the remote source runs its function-valued action; and the request strategy
  that forwarded the request to the remote source (its target is the remote source,
  its action the request's name) runs its \<open>catch\<close>, if it has one.
\<close>

fun failure_handler :: "string \<Rightarrow> strategy \<Rightarrow> (request_options \<times> handler) option" where
  "failure_handler req (RequestStrategy opts) =
     (if from_source opts = ''remote'' \<and> on_event opts = req @ ''Fail''
      then (case action opts of ActionFunction h \<Rightarrow> Some (opts, h) | ActionName _ \<Rightarrow> None)
      else if target opts = Some ''remote'' \<and> action opts = ActionName req
      then (case catch opts of Some h \<Rightarrow> Some (opts, h) | None \<Rightarrow> None)
      else None)"
| "failure_handler req _ = None"

definition failure_handlers :: "string \<Rightarrow> strategy list \<Rightarrow> (request_options \<times> handler) list" where
  "failure_handlers req sts = List.map_filter (failure_handler req) sts"

text \<open>What the installed strategies do when request \<open>req\<close> of the remote source fails with
  \<open>e\<close>: one run per handler reached. \<open>request\<close> is the failed transform (for a pull, the
  query, which no handler reads).\<close>

definition on_failure ::
  "string \<Rightarrow> strategy list \<Rightarrow> string list \<Rightarrow> transform \<Rightarrow> error \<Rightarrow> (event list \<times> completion) list" where
  "on_failure req sts storeLog request e =
     map (\<lambda>(this, h). run_handler h this storeLog request e) (failure_handlers req sts)"

subsection \<open>Reading a trace\<close>

text \<open>The events a step added to the trace.\<close>

definition new_events :: "state \<Rightarrow> state \<Rightarrow> event list" where
  "new_events s s' = drop (length (trace s)) (trace s')"

fun added_strategy :: "event \<Rightarrow> strategy option" where
  "added_strategy (AddStrategy st) = Some st"
| "added_strategy _ = None"

fun added_source :: "event \<Rightarrow> source option" where
  "added_source (AddSource src) = Some src"
| "added_source _ = None"

definition added_strategies :: "event list \<Rightarrow> strategy list" where
  "added_strategies es = List.map_filter added_strategy es"

definition added_sources :: "event list \<Rightarrow> source list" where
  "added_sources es = List.map_filter added_source es"

subsection \<open>The calls of a complete run\<close>

text \<open>
  The calls \<open>configure\<close> makes when no promise rejects, phase by phase, written out as
  lists. The lemmas below show that the trace of \<open>configure\<close> is made of them, cut short
  at the first rejection.
\<close>

text \<open>An event that adds a strategy or a source to the coordinator.\<close>

fun adds :: "event \<Rightarrow> bool" where
  "adds (AddStrategy _) = True"
| "adds (AddSource _) = True"
| "adds _ = False"

text \<open>An event of the clearing phase that undoes the previous configuration: a
  deactivation, a reset of a source or of a cache, the removal of a strategy or a source,
  the clearing of a request or sync queue. (Clearing a transform log is left out: the
  backup bootstrap clears logs too.)\<close>

fun clears :: "event \<Rightarrow> bool" where
  "clears Deactivate = True"
| "clears (SourceReset _) = True"
| "clears (RemoveStrategy _) = True"
| "clears (RemoveSource _) = True"
| "clears (RequestQueueClear _) = True"
| "clears (SyncQueueClear _) = True"
| "clears (CacheReset _) = True"
| "clears _ = False"

definition reset_events :: "source \<Rightarrow> event list" where
  "reset_events src =
     [TransformLogClear (name src), RequestQueueClear (name src), SyncQueueClear (name src),
      if name src = ''store'' then CacheReset (name src) else RemoveSource (name src)]"

definition clear_events :: "state \<Rightarrow> event list" where
  "clear_events s =
     (if activated s then
        [Deactivate, ConsoleLog [S ''[orbit-configuration]'', S ''resetting browser storage'']]
        @ (if \<exists>src \<in> set (sources s). name src = ''backup'' then [SourceReset ''backup''] else [])
        @ [ConsoleLog [S ''[orbit-configuration]'', S ''resetting sources and strategies'']]
        @ map RemoveStrategy (strategies s)
        @ concat (map reset_events (sources s))
      else [])"

definition remote_events :: "bucket option \<Rightarrow> bool \<Rightarrow> event list" where
  "remote_events b p =
     [SetFetch,
      AddSource \<lparr>source_class = JSONAPISource, name = ''remote'', namespace = None, source_bucket = b\<rparr>,
      AddStrategy (SyncStrategy ''remote'' ''store'' p),
      AddStrategy (pull_strategy p)]
     @ (if p then [AddStrategy pessimistic_push_strategy]
        else [AddStrategy optimistic_push_strategy, AddStrategy pushFail_strategy])"

definition backup_events :: "env \<Rightarrow> bucket option \<Rightarrow> event list" where
  "backup_events env b =
     [AddSource \<lparr>source_class = IndexedDBSource,
        name = ''backup'', namespace = Some ''peeps'', source_bucket = b\<rparr>,
      AddStrategy (SyncStrategy ''store'' ''backup'' True)]"

definition build_events :: "env \<Rightarrow> string \<Rightarrow> bucket option \<Rightarrow> event list" where
  "build_events env m b =
     [AddStrategy EventLoggingStrategy, AddStrategy LogTruncationStrategy]
     @ (if m = ''pessimistic-server'' \<or> m = ''optimistic-server''
        then remote_events b (m = ''pessimistic-server'') else [])
     @ (if m = ''offline-only'' \<or> m = ''optimistic-server'' then backup_events env b else [])"

definition activation_events :: "env \<Rightarrow> string \<Rightarrow> event list" where
  "activation_events env m =
     (if m = ''offline-only'' \<or> m = ''optimistic-server''
      then [Activate, PullRecords ''backup'', SourceSync ''store'' (pulled env),
            TransformLogClear ''backup'', TransformLogClear ''store'', Activate]
      else [Activate])"

text \<open>The state the callback of \<open>configure\<close> has reached when it comes to the backup
  branch: the mode is set and stored, the two logging strategies and, for a server mode,
  the remote source and its strategies are added.\<close>

definition built :: "string \<Rightarrow> bucket option \<Rightarrow> state \<Rightarrow> state" where
  "built m b s =
     (let s = addStrategy LogTruncationStrategy (addStrategy EventLoggingStrategy
                (setItem ''peeps-mode'' m (s\<lparr>mode := Some m\<rparr>)))
      in if m = ''pessimistic-server'' \<or> m = ''optimistic-server''
         then configure_remote b (m = ''pessimistic-server'') s else s)"

definition mode_log :: "string \<Rightarrow> event" where
  "mode_log m = ConsoleLog [S ''[orbit-configuration]'', S ''mode'', S m]"

subsection \<open>Concrete scenarios\<close>

text \<open>An environment where the browser provides IndexedDB, no promise rejects and the
  backup is empty; the same in a browser without IndexedDB; the same where the pull from
  the backup source rejects; the service right after \<open>init\<close>; and the service after it
  has been configured for the optimistic-server mode from there.\<close>

definition calm :: env where
  "calm = \<lparr>indexedDB = True, rejects = (\<lambda>h e. False), pulled = []\<rparr>"

definition without_indexedDB :: env where
  "without_indexedDB = \<lparr>indexedDB = False, rejects = (\<lambda>h e. False), pulled = []\<rparr>"


definition fresh :: state where
  "fresh = init calm new_service"

definition synced :: state where
  "synced = snd (configure calm ''optimistic-server'' fresh)"

section \<open>Properties of the contact model\<close>

text \<open>
  Claim C10. For every contact, the computed full name is the first name, a space and
  the last name when both are non-empty; the first name alone when only it is
  non-empty; the last name alone when only it is non-empty; and the text
  \<open>(No name)\<close> when each of the two is empty or absent.
\<close>

theorem fullName_cases:
  "(firstName c = Some f \<and> f \<noteq> [] \<and> lastName c = Some l \<and> l \<noteq> []
      \<longrightarrow> fullName c = f @ '' '' @ l)
   \<and> (firstName c = Some f \<and> f \<noteq> [] \<and> (lastName c = None \<or> lastName c = Some [])
      \<longrightarrow> fullName c = f)
   \<and> ((firstName c = None \<or> firstName c = Some []) \<and> lastName c = Some l \<and> l \<noteq> []
      \<longrightarrow> fullName c = l)
   \<and> ((firstName c = None \<or> firstName c = Some []) \<and> (lastName c = None \<or> lastName c = Some [])
      \<longrightarrow> fullName c = ''(No name)'')"
  by (cases "firstName c"; cases "lastName c") (auto simp: fullName_def Let_def)

theorem fullName_cases_witness:
  "fullName \<lparr>firstName = Some ''Ada'', lastName = Some ''Lovelace'', email = None, twitter = None\<rparr>
     = ''Ada Lovelace''
   \<and> fullName \<lparr>firstName = Some ''Ada'', lastName = None, email = None, twitter = None\<rparr> = ''Ada''
   \<and> fullName \<lparr>firstName = Some [], lastName = Some ''Lovelace'', email = None, twitter = None\<rparr>
     = ''Lovelace''
   \<and> fullName \<lparr>firstName = None, lastName = Some [], email = None, twitter = None\<rparr> = ''(No name)''"
  using
    fullName_cases [of "\<lparr>firstName = Some ''Ada'', lastName = Some ''Lovelace'', email = None, twitter = None\<rparr>"
      "''Ada''" "''Lovelace''"]
    fullName_cases [of "\<lparr>firstName = Some ''Ada'', lastName = None, email = None, twitter = None\<rparr>"
      "''Ada''" "''x''"]
    fullName_cases [of "\<lparr>firstName = Some [], lastName = Some ''Lovelace'', email = None, twitter = None\<rparr>"
      "''x''" "''Lovelace''"]
    fullName_cases [of "\<lparr>firstName = None, lastName = Some [], email = None, twitter = None\<rparr>"
      "''x''" "''x''"]
  by simp

section \<open>The trace of a configuration\<close>

lemma truthy_function_True [simp]: "truthy_function f"
  by (simp add: truthy_function_def)

lemma emit_simps [simp]:
  "trace (emit e s) = trace s @ [e]"
  "mode (emit e s) = mode s"
  "bucket (emit e s) = bucket s"
  "activated (emit e s) = activated s"
  "sources (emit e s) = sources s"
  "strategies (emit e s) = strategies s"
  "localStorage (emit e s) = localStorage s"
  by (simp_all add: emit_def)

lemma addStrategy_simps [simp]:
  "trace (addStrategy st s) = trace s @ [AddStrategy st]"
  "mode (addStrategy st s) = mode s"
  "bucket (addStrategy st s) = bucket s"
  "activated (addStrategy st s) = activated s"
  "sources (addStrategy st s) = sources s"
  "strategies (addStrategy st s) = strategies s @ [st]"
  "localStorage (addStrategy st s) = localStorage s"
  by (simp_all add: addStrategy_def)

lemma addSource_simps [simp]:
  "trace (addSource src s) = trace s @ [AddSource src]"
  "mode (addSource src s) = mode s"
  "bucket (addSource src s) = bucket s"
  "activated (addSource src s) = activated s"
  "sources (addSource src s) = sources s @ [src]"
  "strategies (addSource src s) = strategies s"
  "localStorage (addSource src s) = localStorage s"
  by (simp_all add: addSource_def)

lemma removeStrategy_simps [simp]:
  "trace (removeStrategy st s) = trace s @ [RemoveStrategy st]"
  "mode (removeStrategy st s) = mode s"
  "bucket (removeStrategy st s) = bucket s"
  "activated (removeStrategy st s) = activated s"
  "sources (removeStrategy st s) = sources s"
  "strategies (removeStrategy st s) = removeAll st (strategies s)"
  "localStorage (removeStrategy st s) = localStorage s"
  by (simp_all add: removeStrategy_def)

lemma removeSource_simps [simp]:
  "trace (removeSource n s) = trace s @ [RemoveSource n]"
  "mode (removeSource n s) = mode s"
  "bucket (removeSource n s) = bucket s"
  "activated (removeSource n s) = activated s"
  "sources (removeSource n s) = filter (\<lambda>src. name src \<noteq> n) (sources s)"
  "strategies (removeSource n s) = strategies s"
  "localStorage (removeSource n s) = localStorage s"
  by (simp_all add: removeSource_def)

lemma setItem_simps [simp]:
  "trace (setItem k v s) = trace s @ [LocalStorageSetItem k v]"
  "mode (setItem k v s) = mode s"
  "bucket (setItem k v s) = bucket s"
  "activated (setItem k v s) = activated s"
  "sources (setItem k v s) = sources s"
  "strategies (setItem k v s) = strategies s"
  "localStorage (setItem k v s) = (localStorage s)(k \<mapsto> v)"
  by (simp_all add: setItem_def)

lemma call_simps [simp]:
  "fst (call env e s) = (if rejects env (trace s) e then Rejected else Fulfilled)"
  "snd (call env e s) = emit e s"
  by (simp_all add: call_def)

lemma fold_removeStrategy:
  "trace (fold removeStrategy xs s) = trace s @ map RemoveStrategy xs
   \<and> mode (fold removeStrategy xs s) = mode s
   \<and> bucket (fold removeStrategy xs s) = bucket s
   \<and> activated (fold removeStrategy xs s) = activated s
   \<and> sources (fold removeStrategy xs s) = sources s
   \<and> strategies (fold removeStrategy xs s) = filter (\<lambda>st. st \<notin> set xs) (strategies s)
   \<and> localStorage (fold removeStrategy xs s) = localStorage s"
proof (induction xs arbitrary: s)
  case Nil
  show ?case by simp
next
  case (Cons x xs)
  show ?case
    by (auto simp: Cons.IH removeAll_filter_not_eq intro!: filter_cong)
qed

lemma reset_source_simps [simp]:
  "trace (reset_source src s) = trace s @ reset_events src"
  "mode (reset_source src s) = mode s"
  "bucket (reset_source src s) = bucket s"
  "activated (reset_source src s) = activated s"
  "sources (reset_source src s) =
     (if name src = ''store'' then sources s else filter (\<lambda>x. name x \<noteq> name src) (sources s))"
  "strategies (reset_source src s) = strategies s"
  "localStorage (reset_source src s) = localStorage s"
  by (simp_all add: reset_source_def reset_events_def Let_def)

lemma fold_reset_source:
  "trace (fold reset_source xs s) = trace s @ concat (map reset_events xs)
   \<and> mode (fold reset_source xs s) = mode s
   \<and> bucket (fold reset_source xs s) = bucket s
   \<and> activated (fold reset_source xs s) = activated s
   \<and> sources (fold reset_source xs s) =
       filter (\<lambda>src. name src = ''store'' \<or> name src \<notin> name ` set xs) (sources s)
   \<and> strategies (fold reset_source xs s) = strategies s
   \<and> localStorage (fold reset_source xs s) = localStorage s"
proof (induction xs arbitrary: s)
  case Nil
  show ?case by simp
next
  case (Cons x xs)
  show ?case
    by (auto simp: Cons.IH intro!: filter_cong)
qed

lemma find_name: "find (\<lambda>src. name src = n) xs = Some b \<Longrightarrow> name b = n \<and> b \<in> set xs"
  by (induction xs) (auto split: if_splits)

lemma find_None_name: "find (\<lambda>src. name src = n) xs = None \<longleftrightarrow> (\<forall>src \<in> set xs. name src \<noteq> n)"
  by (induction xs) auto

lemma clear_fulfilled:
  assumes "fst (clearActiveConfiguration env s) = Fulfilled"
  shows "trace (snd (clearActiveConfiguration env s)) = trace s @ clear_events s"
    and "mode (snd (clearActiveConfiguration env s)) = mode s"
    and "bucket (snd (clearActiveConfiguration env s)) = bucket s"
    and "localStorage (snd (clearActiveConfiguration env s)) = localStorage s"
    and "activated s \<Longrightarrow> strategies (snd (clearActiveConfiguration env s)) = []"
    and "activated s \<Longrightarrow> sources (snd (clearActiveConfiguration env s)) = filter (\<lambda>src. name src = ''store'') (sources s)"
    and "\<not> activated s \<Longrightarrow> snd (clearActiveConfiguration env s) = s"
  using assms
  by (auto simp: clearActiveConfiguration_def then_promise_def deactivate_def call_def Let_def
      getSource_def clear_events_def fold_removeStrategy fold_reset_source find_None_name
      dest: find_name intro!: filter_cong
      split: if_splits option.splits prod.splits settled.splits)

lemma clear_any:
  "\<exists>k. trace (snd (clearActiveConfiguration env s)) = trace s @ take k (clear_events s)"
proof (cases "fst (clearActiveConfiguration env s)")
  case Fulfilled
  then have "trace (snd (clearActiveConfiguration env s)) = trace s @ take (length (clear_events s)) (clear_events s)"
    by (simp add: clear_fulfilled(1))
  then show ?thesis by blast
next
  case Rejected
  then have "trace (snd (clearActiveConfiguration env s)) = trace s @ take 1 (clear_events s)
    \<or> trace (snd (clearActiveConfiguration env s)) = trace s @ take 3 (clear_events s)"
    by (auto simp: clearActiveConfiguration_def then_promise_def deactivate_def call_def Let_def
      getSource_def clear_events_def find_None_name
      dest: find_name
      split: if_splits option.splits prod.splits settled.splits)
  then show ?thesis by blast
qed

lemma clear_rejected:
  assumes "fst (clearActiveConfiguration env s) = Rejected"
  shows "mode (snd (clearActiveConfiguration env s)) = mode s"
    and "localStorage (snd (clearActiveConfiguration env s)) = localStorage s"
  using assms
  by (auto simp: clearActiveConfiguration_def then_promise_def deactivate_def call_def Let_def
      split: if_splits option.splits prod.splits settled.splits)

lemma activate_simps [simp]:
  "fst (activate env s) = (if rejects env (trace s) Activate then Rejected else Fulfilled)"
  "trace (snd (activate env s)) = trace s @ [Activate]"
  "mode (snd (activate env s)) = mode s"
  "bucket (snd (activate env s)) = bucket s"
  "sources (snd (activate env s)) = sources s"
  "strategies (snd (activate env s)) = strategies s"
  "localStorage (snd (activate env s)) = localStorage s"
  by (simp_all add: activate_def call_def)

lemma configure_remote_simps [simp]:
  "trace (configure_remote b p s) = trace s @ remote_events b p"
  "mode (configure_remote b p s) = mode s"
  "bucket (configure_remote b p s) = bucket s"
  "activated (configure_remote b p s) = activated s"
  "sources (configure_remote b p s) = sources s @ added_sources (remote_events b p)"
  "strategies (configure_remote b p s) = strategies s @ added_strategies (remote_events b p)"
  "localStorage (configure_remote b p s) = localStorage s"
  by (simp_all add: configure_remote_def remote_events_def Let_def added_sources_def
      added_strategies_def List.map_filter_simps)

lemma then_promise_simps:
  "fst (then_promise p f) = (if fst p = Fulfilled then fst (f (snd p)) else Rejected)"
  "snd (then_promise p f) = (if fst p = Fulfilled then snd (f (snd p)) else snd p)"
  by (cases p; cases "fst p"; simp add: then_promise_def)+

lemma configure_backup_fulfilled:
  assumes "fst (configure_backup env b s) = Fulfilled"
  shows "trace (snd (configure_backup env b s)) = trace s @ backup_events env b @
           [Activate, PullRecords ''backup'', SourceSync ''store'' (pulled env),
            TransformLogClear ''backup'', TransformLogClear ''store'', Activate]"
  using assms
  by (simp add: configure_backup_def Let_def then_promise_simps backup_events_def split: if_splits)

lemma configure_backup_any:
  "\<exists>k>0. trace (snd (configure_backup env b s)) = trace s @ backup_events env b @
           take k [Activate, PullRecords ''backup'', SourceSync ''store'' (pulled env),
            TransformLogClear ''backup'', TransformLogClear ''store'', Activate]"
proof -
  let ?c = "[Activate, PullRecords ''backup'', SourceSync ''store'' (pulled env),
            TransformLogClear ''backup'', TransformLogClear ''store'', Activate]"
  have "\<exists>k \<in> {1, 2, 3, 4, 5, 6}. trace (snd (configure_backup env b s)) = trace s @ backup_events env b @ take k ?c"
    by (simp add: configure_backup_def Let_def then_promise_simps backup_events_def)
  then obtain k where k: "k \<in> {1, 2, 3, 4, 5, 6}"
    "trace (snd (configure_backup env b s)) = trace s @ backup_events env b @ take k ?c"
    by blast
  from k(1) have "0 < k" by auto
  with k(2) show ?thesis by blast
qed

lemma configure_backup_fields [simp]:
  "mode (snd (configure_backup env b s)) = mode s"
  "bucket (snd (configure_backup env b s)) = bucket s"
  "sources (snd (configure_backup env b s)) = sources s @ added_sources (backup_events env b)"
  "strategies (snd (configure_backup env b s)) = strategies s @ added_strategies (backup_events env b)"
  "localStorage (snd (configure_backup env b s)) = localStorage s"
  by (simp_all add: configure_backup_def Let_def then_promise_simps backup_events_def
       added_sources_def added_strategies_def List.map_filter_simps)

lemma added_append [simp]:
  "added_strategies (xs @ ys) = added_strategies xs @ added_strategies ys"
  "added_sources (xs @ ys) = added_sources xs @ added_sources ys"
  by (simp_all add: added_strategies_def added_sources_def List.map_filter_def)

lemma added_Cons [simp]:
  "added_strategies (e # es) = (case added_strategy e of None \<Rightarrow> [] | Some st \<Rightarrow> [st]) @ added_strategies es"
  "added_sources (e # es) = (case added_source e of None \<Rightarrow> [] | Some src \<Rightarrow> [src]) @ added_sources es"
  "added_strategies [] = []"
  "added_sources [] = []"
  by (simp_all add: added_strategies_def added_sources_def List.map_filter_simps split: option.splits)

lemma callback_fields:
  "mode (snd (configure_callback env m b s)) = Some m"
  "bucket (snd (configure_callback env m b s)) = bucket s"
  "localStorage (snd (configure_callback env m b s)) = (localStorage s)(''peeps-mode'' \<mapsto> m)"
  "strategies (snd (configure_callback env m b s)) = strategies s @ added_strategies (build_events env m b)"
  "sources (snd (configure_callback env m b s)) = sources s @ added_sources (build_events env m b)"
  by (simp_all add: configure_callback_def Let_def build_events_def)

lemma callback_unfold:
  "configure_callback env m b s =
     (if m = ''offline-only'' \<or> m = ''optimistic-server''
      then configure_backup env b (built m b s) else activate env (built m b s))"
  by (simp add: configure_callback_def built_def Let_def)

lemma built_simps [simp]:
  "trace (built m b s) = trace s @ LocalStorageSetItem ''peeps-mode'' m #
     [AddStrategy EventLoggingStrategy, AddStrategy LogTruncationStrategy]
     @ (if m = ''pessimistic-server'' \<or> m = ''optimistic-server''
        then remote_events b (m = ''pessimistic-server'') else [])"
  "mode (built m b s) = Some m"
  "bucket (built m b s) = bucket s"
  "activated (built m b s) = activated s"
  "localStorage (built m b s) = (localStorage s)(''peeps-mode'' \<mapsto> m)"
  by (simp_all add: built_def Let_def)

lemma callback_fulfilled:
  assumes "fst (configure_callback env m b s) = Fulfilled"
  shows "trace (snd (configure_callback env m b s)) =
    trace s @ LocalStorageSetItem ''peeps-mode'' m # build_events env m b @ activation_events env m"
proof (cases "m = ''offline-only'' \<or> m = ''optimistic-server''")
  case True
  with assms have "fst (configure_backup env b (built m b s)) = Fulfilled"
    by (simp add: callback_unfold)
  from configure_backup_fulfilled [OF this] True show ?thesis
    by (simp add: callback_unfold build_events_def activation_events_def)
next
  case False
  then show ?thesis
    by (simp add: callback_unfold build_events_def activation_events_def)
qed

lemma callback_any:
  "\<exists>k>0. trace (snd (configure_callback env m b s)) =
    trace s @ LocalStorageSetItem ''peeps-mode'' m # build_events env m b @ take k (activation_events env m)"
proof (cases "m = ''offline-only'' \<or> m = ''optimistic-server''")
  case True
  from configure_backup_any [of env b "built m b s"] obtain k where "0 < k"
    "trace (snd (configure_backup env b (built m b s))) = trace (built m b s) @ backup_events env b @
           take k [Activate, PullRecords ''backup'', SourceSync ''store'' (pulled env),
            TransformLogClear ''backup'', TransformLogClear ''store'', Activate]" by blast
  with True have "0 < k \<and> trace (snd (configure_callback env m b s)) =
    trace s @ LocalStorageSetItem ''peeps-mode'' m # build_events env m b @ take k (activation_events env m)"
    by (simp add: callback_unfold build_events_def activation_events_def)
  then show ?thesis by blast
next
  case False
  then have "0 < (1::nat) \<and> trace (snd (configure_callback env m b s)) =
    trace s @ LocalStorageSetItem ''peeps-mode'' m # build_events env m b @ take 1 (activation_events env m)"
    by (simp add: callback_unfold build_events_def activation_events_def)
  then show ?thesis by blast
qed

lemma clear_events_emit [simp]: "clear_events (emit e s) = clear_events s"
  by (simp add: clear_events_def)

lemma new_events_append [simp]: "trace s' = trace s @ es \<Longrightarrow> new_events s s' = es"
  by (simp add: new_events_def)

lemma configure_unfold:
  "mode s \<noteq> Some m \<Longrightarrow>
   configure env m s =
     (let p = then_promise (clearActiveConfiguration env (emit (mode_log m) s)) (configure_callback env m (bucket s))
      in (Promise (fst p), snd p))"
  by (auto simp: configure_def Let_def mode_log_def)

lemma configure_switch_iff:
  assumes "mode s \<noteq> Some m"
  shows "(mode (snd (configure env m s)) = Some m) = (fst (clearActiveConfiguration env (emit (mode_log m) s)) = Fulfilled)"
proof (cases "fst (clearActiveConfiguration env (emit (mode_log m) s))")
  case Fulfilled
  then show ?thesis using assms
    by (simp add: configure_unfold then_promise_simps callback_fields)
next
  case Rejected
  then show ?thesis using assms clear_rejected(1) [OF Rejected]
    by (simp add: configure_unfold then_promise_simps)
qed

lemma configure_switched:
  assumes "mode s \<noteq> Some m" and "mode (snd (configure env m s)) = Some m"
  shows "\<exists>k>0. new_events s (snd (configure env m s)) =
     mode_log m # clear_events s @ LocalStorageSetItem ''peeps-mode'' m # build_events env m (bucket s)
       @ take k (activation_events env m)"
proof -
  let ?s1 = "emit (mode_log m) s"
  let ?s2 = "snd (clearActiveConfiguration env ?s1)"
  from assms have F: "fst (clearActiveConfiguration env ?s1) = Fulfilled"
    by (simp add: configure_switch_iff)
  from callback_any [of env m "bucket s" ?s2] obtain k where k: "0 < k"
    "trace (snd (configure_callback env m (bucket s) ?s2)) =
    trace ?s2 @ LocalStorageSetItem ''peeps-mode'' m # build_events env m (bucket s) @ take k (activation_events env m)"
    by blast
  have "trace (snd (configure env m s)) = trace s @ (mode_log m # clear_events s @ LocalStorageSetItem ''peeps-mode'' m # build_events env m (bucket s)
       @ take k (activation_events env m))"
    using assms(1) F k(2) clear_fulfilled(1) [OF F]
    by (simp add: configure_unfold then_promise_simps)
  then have "new_events s (snd (configure env m s)) = mode_log m # clear_events s @ LocalStorageSetItem ''peeps-mode'' m # build_events env m (bucket s)
       @ take k (activation_events env m)"
    by (rule new_events_append)
  with k(1) show ?thesis by blast
qed

lemma configure_fulfilled:
  assumes "mode s \<noteq> Some m" and "fst (configure env m s) = Promise Fulfilled"
  shows "new_events s (snd (configure env m s)) =
     mode_log m # clear_events s @ LocalStorageSetItem ''peeps-mode'' m # build_events env m (bucket s)
       @ activation_events env m"
    and "mode (snd (configure env m s)) = Some m"
    and "localStorage (snd (configure env m s)) = (localStorage s)(''peeps-mode'' \<mapsto> m)"
proof -
  let ?s1 = "emit (mode_log m) s"
  let ?s2 = "snd (clearActiveConfiguration env ?s1)"
  from assms have F: "fst (clearActiveConfiguration env ?s1) = Fulfilled"
    by (simp add: configure_unfold then_promise_simps split: if_splits)
  with assms have G: "fst (configure_callback env m (bucket s) ?s2) = Fulfilled"
    by (simp add: configure_unfold then_promise_simps split: if_splits)
  have "trace (snd (configure env m s)) = trace s @ (mode_log m # clear_events s @ LocalStorageSetItem ''peeps-mode'' m # build_events env m (bucket s)
       @ activation_events env m)"
    using assms(1) F callback_fulfilled [OF G] clear_fulfilled(1) [OF F]
    by (simp add: configure_unfold then_promise_simps)
  then show "new_events s (snd (configure env m s)) =
     mode_log m # clear_events s @ LocalStorageSetItem ''peeps-mode'' m # build_events env m (bucket s)
       @ activation_events env m"
    by (rule new_events_append)
  show "mode (snd (configure env m s)) = Some m"
    using assms(1) F by (simp add: configure_switch_iff)
  show "localStorage (snd (configure env m s)) = (localStorage s)(''peeps-mode'' \<mapsto> m)"
    using assms(1) F clear_fulfilled(4) [OF F]
    by (simp add: configure_unfold then_promise_simps callback_fields)
qed

lemma configure_unswitched:
  assumes "mode s \<noteq> Some m" and "mode (snd (configure env m s)) \<noteq> Some m"
  shows "\<exists>k. new_events s (snd (configure env m s)) = mode_log m # take k (clear_events s)"
proof -
  let ?s1 = "emit (mode_log m) s"
  from assms have R: "fst (clearActiveConfiguration env ?s1) = Rejected"
    using configure_switch_iff [OF assms(1), of env] by (cases "fst (clearActiveConfiguration env ?s1)") auto
  from clear_any [of env ?s1] obtain k where
    "trace (snd (clearActiveConfiguration env ?s1)) = trace ?s1 @ take k (clear_events ?s1)" by blast
  with R assms(1) have "trace (snd (configure env m s)) = trace s @ (mode_log m # take k (clear_events s))"
    by (simp add: configure_unfold then_promise_simps)
  then have "new_events s (snd (configure env m s)) = mode_log m # take k (clear_events s)"
    by (rule new_events_append)
  then show ?thesis by blast
qed

section \<open>What a configuration adds, and when\<close>

lemma no_adds_added:
  "\<forall>e \<in> set es. \<not> adds e \<Longrightarrow> added_strategies es = [] \<and> added_sources es = []"
proof (induction es)
  case Nil
  show ?case by simp
next
  case (Cons e es)
  then show ?case by (cases e) simp_all
qed

lemma reset_events_quiet:
  "e \<in> set (reset_events src) \<Longrightarrow> \<not> adds e \<and> e \<noteq> Activate \<and> (\<forall>n. e \<noteq> PullRecords n)"
  by (cases "name src = ''store''") (auto simp: reset_events_def)

lemma clear_events_quiet:
  "e \<in> set (clear_events s) \<Longrightarrow> \<not> adds e \<and> e \<noteq> Activate \<and> (\<forall>n. e \<noteq> PullRecords n)"
  by (cases "activated s"; cases "\<exists>src \<in> set (sources s). name src = ''backup''")
     (auto simp: clear_events_def dest: reset_events_quiet)

lemma activation_events_quiet:
  "e \<in> set (activation_events env m) \<Longrightarrow> \<not> adds e \<and> \<not> clears e"
  by (cases "m = ''offline-only'' \<or> m = ''optimistic-server''") (auto simp: activation_events_def)

lemma remote_events_quiet:
  "e \<in> set (remote_events b p) \<Longrightarrow> \<not> clears e \<and> e \<noteq> Activate \<and> (\<forall>n. e \<noteq> PullRecords n)"
  by (cases p) (auto simp: remote_events_def)

lemma backup_events_quiet:
  "e \<in> set (backup_events env b) \<Longrightarrow> \<not> clears e \<and> e \<noteq> Activate \<and> (\<forall>n. e \<noteq> PullRecords n)"
  by (auto simp: backup_events_def)

lemma build_events_quiet:
  "e \<in> set (build_events env m b) \<Longrightarrow> \<not> clears e \<and> e \<noteq> Activate \<and> (\<forall>n. e \<noteq> PullRecords n)"
  unfolding build_events_def
  by (cases "m = ''pessimistic-server'' \<or> m = ''optimistic-server''";
      cases "m = ''offline-only'' \<or> m = ''optimistic-server''")
     (auto dest: remote_events_quiet backup_events_quiet)

lemma added_sources_build:
  "added_sources (build_events env m b) =
     (if m = ''pessimistic-server'' \<or> m = ''optimistic-server''
      then [\<lparr>source_class = JSONAPISource, name = ''remote'', namespace = None, source_bucket = b\<rparr>]
      else [])
     @ (if m = ''offline-only'' \<or> m = ''optimistic-server''
        then [\<lparr>source_class = IndexedDBSource,
                name = ''backup'', namespace = Some ''peeps'', source_bucket = b\<rparr>]
        else [])"
  by (simp add: build_events_def remote_events_def backup_events_def)

lemma added_strategies_build:
  "added_strategies (build_events env m b) =
     [EventLoggingStrategy, LogTruncationStrategy]
     @ (if m = ''pessimistic-server''
        then [SyncStrategy ''remote'' ''store'' True, pull_strategy True, pessimistic_push_strategy]
        else if m = ''optimistic-server''
        then [SyncStrategy ''remote'' ''store'' False, pull_strategy False, optimistic_push_strategy,
              pushFail_strategy]
        else [])
     @ (if m = ''offline-only'' \<or> m = ''optimistic-server''
        then [SyncStrategy ''store'' ''backup'' True] else [])"
  by (simp add: build_events_def remote_events_def backup_events_def)

lemma added_switched:
  assumes "mode s \<noteq> Some m" and "mode (snd (configure env m s)) = Some m"
  shows "added_sources (new_events s (snd (configure env m s))) = added_sources (build_events env m (bucket s))"
    and "added_strategies (new_events s (snd (configure env m s))) = added_strategies (build_events env m (bucket s))"
proof -
  from configure_switched [OF assms] obtain k where
    es: "new_events s (snd (configure env m s)) =
     mode_log m # clear_events s @ LocalStorageSetItem ''peeps-mode'' m # build_events env m (bucket s)
       @ take k (activation_events env m)" by blast
  have c: "added_strategies (clear_events s) = [] \<and> added_sources (clear_events s) = []"
    by (rule no_adds_added) (simp add: clear_events_quiet)
  have a: "added_strategies (take k (activation_events env m)) = [] \<and> added_sources (take k (activation_events env m)) = []"
    by (rule no_adds_added) (auto dest: in_set_takeD activation_events_quiet)
  show "added_sources (new_events s (snd (configure env m s))) = added_sources (build_events env m (bucket s))"
    by (simp add: es c a mode_log_def)
  show "added_strategies (new_events s (snd (configure env m s))) = added_strategies (build_events env m (bucket s))"
    by (simp add: es c a mode_log_def)
qed

lemma added_unswitched:
  assumes "mode s \<noteq> Some m" and "mode (snd (configure env m s)) \<noteq> Some m"
  shows "added_sources (new_events s (snd (configure env m s))) = []"
    and "added_strategies (new_events s (snd (configure env m s))) = []"
proof -
  from configure_unswitched [OF assms] obtain k where
    es: "new_events s (snd (configure env m s)) = mode_log m # take k (clear_events s)" by blast
  have c: "added_strategies (take k (clear_events s)) = [] \<and> added_sources (take k (clear_events s)) = []"
    by (rule no_adds_added) (auto dest: in_set_takeD clear_events_quiet)
  show "added_sources (new_events s (snd (configure env m s))) = []"
    by (simp add: es c mode_log_def)
  show "added_strategies (new_events s (snd (configure env m s))) = []"
    by (simp add: es c mode_log_def)
qed


lemma new_events_same [simp]: "new_events s s = []"
  by (simp add: new_events_def)

lemma fresh_simps:
  "mode fresh = None"
  "bucket fresh = Some \<lparr>bucket_class = IndexedDBBucket, bucket_namespace = ''peeps-settings''\<rparr>"
  "activated fresh = False"
  "strategies fresh = []"
  "trace fresh = []"
  "localStorage fresh = Map.empty"
  by (simp_all add: fresh_def init_def new_service_def calm_def)

lemma calm_simps [simp]:
  "indexedDB calm = True"
  "rejects calm h e = False"
  "pulled calm = []"
  by (simp_all add: calm_def)

lemma quiet_fulfilled:
  assumes "\<And>h e. \<not> rejects env h e" and "mode s \<noteq> Some m"
  shows "fst (configure env m s) = Promise Fulfilled"
  using assms
  by (simp add: configure_unfold then_promise_simps clearActiveConfiguration_def deactivate_def call_def
      callback_unfold configure_backup_def Let_def split: option.splits)

lemma calm_fulfilled: "mode s \<noteq> Some m \<Longrightarrow> fst (configure calm m s) = Promise Fulfilled"
  by (rule quiet_fulfilled) simp_all


lemma fresh_run:
  "new_events fresh (snd (configure calm m fresh)) =
     mode_log m # LocalStorageSetItem ''peeps-mode'' m # build_events calm m (bucket fresh) @ activation_events calm m"
  "fst (configure calm m fresh) = Promise Fulfilled"
  "mode (snd (configure calm m fresh)) = Some m"
proof -
  have h: "mode fresh \<noteq> Some m" by (simp add: fresh_simps)
  show "fst (configure calm m fresh) = Promise Fulfilled" by (rule calm_fulfilled [OF h])
  from configure_fulfilled(1) [OF h this]
  show "new_events fresh (snd (configure calm m fresh)) =
     mode_log m # LocalStorageSetItem ''peeps-mode'' m # build_events calm m (bucket fresh) @ activation_events calm m"
    by (simp add: clear_events_def fresh_simps)
  show "mode (snd (configure calm m fresh)) = Some m"
    by (rule configure_fulfilled(2) [OF h calm_fulfilled [OF h]])
qed

lemma fresh_added:
  "added_sources (new_events fresh (snd (configure calm m fresh))) = added_sources (build_events calm m (bucket fresh))"
  "added_strategies (new_events fresh (snd (configure calm m fresh))) = added_strategies (build_events calm m (bucket fresh))"
proof -
  have h: "mode fresh \<noteq> Some m" by (simp add: fresh_simps)
  show "added_sources (new_events fresh (snd (configure calm m fresh))) = added_sources (build_events calm m (bucket fresh))"
    by (rule added_switched(1) [OF h fresh_run(3)])
  show "added_strategies (new_events fresh (snd (configure calm m fresh))) = added_strategies (build_events calm m (bucket fresh))"
    by (rule added_switched(2) [OF h fresh_run(3)])
qed


lemma build_events_hd:
  "build_events env m b = AddStrategy EventLoggingStrategy # tl (build_events env m b)"
  by (simp add: build_events_def)

lemma activation_events_hd:
  "activation_events env m = Activate # tl (activation_events env m)"
  by (simp add: activation_events_def)

lemma take_activation:
  "0 < k \<Longrightarrow> take k (activation_events env m) = Activate # take (k - 1) (tl (activation_events env m))"
  by (subst activation_events_hd) (simp add: take_Cons')

lemma clear_starts:
  "activated s \<Longrightarrow> \<exists>r. trace (snd (clearActiveConfiguration env s)) = trace s @ Deactivate # r"
  by (auto simp: clearActiveConfiguration_def then_promise_simps deactivate_def call_def Let_def
      fold_removeStrategy fold_reset_source
      split: if_splits option.splits prod.splits settled.splits)

lemma configure_starts:
  assumes "mode s \<noteq> Some m" and "activated s"
  shows "take 2 (new_events s (snd (configure env m s))) = [mode_log m, Deactivate]"
proof -
  let ?s1 = "emit (mode_log m) s"
  let ?s2 = "snd (clearActiveConfiguration env ?s1)"
  from assms(2) have "activated ?s1" by simp
  from clear_starts [OF this, of env] obtain r where r: "trace ?s2 = trace ?s1 @ Deactivate # r" by blast
  obtain k where k: "trace (snd (configure_callback env m (bucket s) ?s2)) =
    trace ?s2 @ LocalStorageSetItem ''peeps-mode'' m # build_events env m (bucket s) @ take k (activation_events env m)"
    using callback_any [of env m "bucket s" ?s2] by blast
  have "\<exists>r'. trace (snd (configure env m s)) = trace s @ (mode_log m # Deactivate # r')"
    using assms(1) r k by (simp add: configure_unfold then_promise_simps)
  then obtain r' where "trace (snd (configure env m s)) = trace s @ (mode_log m # Deactivate # r')" by blast
  then have "new_events s (snd (configure env m s)) = mode_log m # Deactivate # r'"
    by (rule new_events_append)
  then show ?thesis by simp
qed

lemma mode_log_quiet [simp]:
  "\<not> adds (mode_log m)" "\<not> clears (mode_log m)" "mode_log m \<noteq> Activate" "mode_log m \<noteq> PullRecords n"
  "Activate \<noteq> mode_log m" "PullRecords n \<noteq> mode_log m"
  by (simp_all add: mode_log_def)

lemma switched_shape:
  assumes "mode s \<noteq> Some m" and "mode (snd (configure env m s)) = Some m"
  shows "takeWhile (\<lambda>e. \<not> adds e) (new_events s (snd (configure env m s)))
           = mode_log m # clear_events s @ [LocalStorageSetItem ''peeps-mode'' m]"
    and "\<exists>k>0. drop (length (takeWhile (\<lambda>e. \<not> adds e) (new_events s (snd (configure env m s)))))
             (new_events s (snd (configure env m s)))
           = build_events env m (bucket s) @ take k (activation_events env m)"
    and "\<exists>k>0. dropWhile (\<lambda>e. e \<noteq> Activate) (new_events s (snd (configure env m s)))
           = take k (activation_events env m)"
proof -
  let ?es = "new_events s (snd (configure env m s))"
  let ?set = "LocalStorageSetItem ''peeps-mode'' m"
  from configure_switched [OF assms] obtain k where k: "0 < k" and
    es: "?es = mode_log m # clear_events s @ ?set # build_events env m (bucket s)
       @ take k (activation_events env m)" by blast
  have es': "?es = (mode_log m # clear_events s @ [?set]) @ (build_events env m (bucket s)
       @ take k (activation_events env m))" by (simp add: es)
  have pre: "\<And>x. x \<in> set (mode_log m # clear_events s @ [?set]) \<Longrightarrow> \<not> adds x"
    by (auto dest: clear_events_quiet)
  have tw: "takeWhile (\<lambda>e. \<not> adds e) ?es = (mode_log m # clear_events s @ [?set])
      @ takeWhile (\<lambda>e. \<not> adds e) (build_events env m (bucket s) @ take k (activation_events env m))"
    unfolding es' by (rule takeWhile_append2) (rule pre)
  have "takeWhile (\<lambda>e. \<not> adds e) (build_events env m (bucket s) @ take k (activation_events env m)) = []"
    by (subst build_events_hd) simp
  with tw show 1: "takeWhile (\<lambda>e. \<not> adds e) ?es = mode_log m # clear_events s @ [?set]" by simp
  have "drop (length (mode_log m # clear_events s @ [?set])) ?es
           = build_events env m (bucket s) @ take k (activation_events env m)"
    unfolding es' by simp
  with k show "\<exists>k>0. drop (length (takeWhile (\<lambda>e. \<not> adds e) ?es)) ?es
           = build_events env m (bucket s) @ take k (activation_events env m)"
    unfolding 1 by blast
  have es'': "?es = (mode_log m # clear_events s @ ?set # build_events env m (bucket s))
       @ take k (activation_events env m)" by (simp add: es)
  have quiet: "\<And>x. x \<in> set (mode_log m # clear_events s @ ?set # build_events env m (bucket s)) \<Longrightarrow> x \<noteq> Activate"
    by (auto dest: clear_events_quiet build_events_quiet)
  have "dropWhile (\<lambda>e. e \<noteq> Activate) ?es = dropWhile (\<lambda>e. e \<noteq> Activate) (take k (activation_events env m))"
    unfolding es'' by (rule dropWhile_append2) (rule quiet)
  also have "\<dots> = take k (activation_events env m)"
    by (simp add: take_activation [OF k])
  finally show "\<exists>k>0. dropWhile (\<lambda>e. e \<noteq> Activate) ?es = take k (activation_events env m)"
    using k by blast
qed

lemma unswitched_shape:
  assumes "mode s \<noteq> Some m" and "mode (snd (configure env m s)) \<noteq> Some m"
  shows "takeWhile (\<lambda>e. \<not> adds e) (new_events s (snd (configure env m s))) = new_events s (snd (configure env m s))"
    and "dropWhile (\<lambda>e. e \<noteq> Activate) (new_events s (snd (configure env m s))) = []"
proof -
  from configure_unswitched [OF assms] obtain k where
    es: "new_events s (snd (configure env m s)) = mode_log m # take k (clear_events s)" by blast
  have q: "\<And>x. x \<in> set (mode_log m # take k (clear_events s)) \<Longrightarrow> \<not> adds x \<and> x \<noteq> Activate"
    by (auto dest: in_set_takeD clear_events_quiet)
  show "takeWhile (\<lambda>e. \<not> adds e) (new_events s (snd (configure env m s))) = new_events s (snd (configure env m s))"
    unfolding es using q by (simp only: takeWhile_eq_all_conv) blast
  show "dropWhile (\<lambda>e. e \<noteq> Activate) (new_events s (snd (configure env m s))) = []"
    unfolding es using q by (simp only: dropWhile_eq_Nil_conv) blast
qed

lemma switched_coordinator:
  assumes "mode s \<noteq> Some m" and "mode (snd (configure env m s)) = Some m" and "activated s"
  shows "strategies (snd (configure env m s)) = added_strategies (new_events s (snd (configure env m s)))"
    and "sources (snd (configure env m s)) =
           filter (\<lambda>src. name src = ''store'') (sources s) @ added_sources (new_events s (snd (configure env m s)))"
proof -
  let ?s1 = "emit (mode_log m) s"
  from assms have F: "fst (clearActiveConfiguration env ?s1) = Fulfilled"
    by (simp add: configure_switch_iff)
  from assms(3) have A: "activated ?s1" by simp
  have "strategies (snd (configure env m s)) = added_strategies (build_events env m (bucket s))"
    using assms(1) F clear_fulfilled(5) [OF F A]
    by (simp add: configure_unfold then_promise_simps callback_fields)
  then show "strategies (snd (configure env m s)) = added_strategies (new_events s (snd (configure env m s)))"
    by (simp only: added_switched(2) [OF assms(1,2)])
  have "sources (snd (configure env m s)) =
           filter (\<lambda>src. name src = ''store'') (sources s) @ added_sources (build_events env m (bucket s))"
    using assms(1) F clear_fulfilled(6) [OF F A]
    by (simp add: configure_unfold then_promise_simps callback_fields)
  then show "sources (snd (configure env m s)) =
           filter (\<lambda>src. name src = ''store'') (sources s) @ added_sources (new_events s (snd (configure env m s)))"
    by (simp only: added_switched(1) [OF assms(1,2)])
qed

lemma then_promise_fulfilledD:
  assumes "fst (then_promise p f) = Fulfilled"
  shows "fst p = Fulfilled" and "fst (f (snd p)) = Fulfilled"
    and "snd (then_promise p f) = snd (f (snd p))"
  using assms by (auto simp: then_promise_simps split: if_splits)

lemma activated_activate:
  "activated (snd (activate env s))"
  by (simp add: activate_def call_def)

lemma configure_backup_activated:
  assumes "fst (configure_backup env b s) = Fulfilled"
  shows "activated (snd (configure_backup env b s))"
  using assms
  by (simp add: configure_backup_def Let_def then_promise_simps activated_activate split: if_splits)

lemma callback_activated:
  "fst (configure_callback env m b s) = Fulfilled \<Longrightarrow> activated (snd (configure_callback env m b s))"
  by (cases "m = ''offline-only'' \<or> m = ''optimistic-server''")
     (simp_all add: callback_unfold configure_backup_activated activated_activate split: if_splits)

lemma configure_activated:
  assumes "mode s \<noteq> Some m" and "fst (configure env m s) = Promise Fulfilled"
  shows "activated (snd (configure env m s))"
proof -
  let ?s1 = "emit (mode_log m) s"
  let ?s2 = "snd (clearActiveConfiguration env ?s1)"
  from assms have F: "fst (clearActiveConfiguration env ?s1) = Fulfilled"
    by (simp add: configure_unfold then_promise_simps split: if_splits)
  with assms have G: "fst (configure_callback env m (bucket s) ?s2) = Fulfilled"
    by (simp add: configure_unfold then_promise_simps split: if_splits)
  from callback_activated [OF G] assms(1) F show ?thesis
    by (simp add: configure_unfold then_promise_simps)
qed

lemma fresh_sources:
  "sources fresh = [\<lparr>source_class = Store, name = ''store'', namespace = None, source_bucket = None\<rparr>]"
  by (simp add: fresh_def init_def new_service_def)

lemma synced_simps:
  "mode synced = Some ''optimistic-server''"
  "activated synced"
  "bucket synced = bucket fresh"
  "strategies synced = added_strategies (build_events calm ''optimistic-server'' (bucket fresh))"
  "sources synced = sources fresh @ added_sources (build_events calm ''optimistic-server'' (bucket fresh))"
proof -
  let ?m = "''optimistic-server''"
  let ?s1 = "emit (mode_log ?m) fresh"
  have h: "mode fresh \<noteq> Some ?m" by (simp add: fresh_simps)
  have F: "fst (clearActiveConfiguration calm ?s1) = Fulfilled"
    using fresh_run(3) [of ?m] configure_switch_iff [OF h, of calm] by simp
  have n: "\<not> activated ?s1" by (simp add: fresh_simps)
  note same = clear_fulfilled(7) [OF F n]
  show "mode synced = Some ?m" unfolding synced_def by (rule fresh_run(3))
  show "activated synced" unfolding synced_def by (rule configure_activated [OF h fresh_run(2)])
  show "bucket synced = bucket fresh" unfolding synced_def using h F same
    by (simp add: configure_unfold then_promise_simps callback_fields)
  show "strategies synced = added_strategies (build_events calm ?m (bucket fresh))"
    unfolding synced_def using h F same
    by (simp add: configure_unfold then_promise_simps callback_fields fresh_simps)
  show "sources synced = sources fresh @ added_sources (build_events calm ?m (bucket fresh))"
    unfolding synced_def using h F same
    by (simp add: configure_unfold then_promise_simps callback_fields)
qed


lemma initialize_unfold:
  "initialize env t =
     configure env (case localStorage t ''peeps-mode'' of
                      None \<Rightarrow> ''offline-only''
                    | Some v \<Rightarrow> if v = [] then ''offline-only'' else v) t"
  by (cases "localStorage t ''peeps-mode''") (simp_all add: initialize_def or_default_def Let_def)

lemma failure_handler_simps:
  "failure_handler req EventLoggingStrategy = None"
  "failure_handler req LogTruncationStrategy = None"
  "failure_handler req (SyncStrategy a b c) = None"
  "failure_handler ''push'' (pull_strategy p) = None"
  "failure_handler ''pull'' (pull_strategy p) =
     Some (\<lparr>from_source = ''store'', on_event = ''beforeQuery'', target = Some ''remote'',
             action = ActionName ''pull'', blocking = p, catch = Some CatchPull\<rparr>, CatchPull)"
  "failure_handler ''push'' pessimistic_push_strategy =
     Some (\<lparr>from_source = ''store'', on_event = ''beforeUpdate'', target = Some ''remote'',
             action = ActionName ''push'', blocking = True, catch = Some CatchPush\<rparr>, CatchPush)"
  "failure_handler ''pull'' pessimistic_push_strategy = None"
  "failure_handler req optimistic_push_strategy = None"
  "failure_handler ''push'' pushFail_strategy =
     Some (\<lparr>from_source = ''remote'', on_event = ''pushFail'', target = None,
             action = ActionFunction PushFailAction, blocking = True, catch = None\<rparr>, PushFailAction)"
  "failure_handler ''pull'' pushFail_strategy = None"
  by (simp_all add: pull_strategy_def pessimistic_push_strategy_def optimistic_push_strategy_def
      pushFail_strategy_def)

lemma handlers_build:
  "failure_handlers ''push'' (added_strategies (build_events env m b)) =
     (if m = ''pessimistic-server''
      then [(\<lparr>from_source = ''store'', on_event = ''beforeUpdate'', target = Some ''remote'',
               action = ActionName ''push'', blocking = True, catch = Some CatchPush\<rparr>, CatchPush)]
      else if m = ''optimistic-server''
      then [(\<lparr>from_source = ''remote'', on_event = ''pushFail'', target = None,
               action = ActionFunction PushFailAction, blocking = True, catch = None\<rparr>, PushFailAction)]
      else [])"
  "failure_handlers ''pull'' (added_strategies (build_events env m b)) =
     (if m = ''pessimistic-server'' \<or> m = ''optimistic-server''
      then [(\<lparr>from_source = ''store'', on_event = ''beforeQuery'', target = Some ''remote'',
               action = ActionName ''pull'', blocking = (m = ''pessimistic-server''),
               catch = Some CatchPull\<rparr>, CatchPull)]
      else [])"
  unfolding added_strategies_build failure_handlers_def
  by (cases "m = ''pessimistic-server''"; cases "m = ''optimistic-server''"; cases "m = ''offline-only''";
      simp add: List.map_filter_simps failure_handler_simps)+

lemma on_failure_build:
  "on_failure ''push'' (added_strategies (build_events env m b)) storeLog t e =
     (if m = ''pessimistic-server''
      then [([ConsoleLog [S ''error performing remote.push'', E e],
              RequestQueueSkip ''store'', RequestQueueSkip ''remote''], Threw e)]
      else if m = ''optimistic-server'' then [pushFail_action storeLog t e]
      else [])"
  "on_failure ''pull'' (added_strategies (build_events env m b)) storeLog t e =
     (if m = ''pessimistic-server'' \<or> m = ''optimistic-server''
      then [([ConsoleLog [S ''error performing remote.pull'', E e],
              RequestQueueSkip ''store'', RequestQueueSkip ''remote''], Threw e)]
      else [])"
  unfolding on_failure_def handlers_build
  by (simp_all add: catch_push_def catch_pull_def catch_with_def)

section \<open>Properties of the configuration service\<close>

text \<open>
  Claim C8. A call of \<open>configure\<close> with the mode the service is already in returns
  \<open>undefined\<close> at once and leaves the whole state as it was: the coordinator is not
  deactivated, no strategy or source is added or removed, nothing is written to
  \<open>localStorage\<close>, nothing is logged. A call with any other mode returns a promise.
\<close>

theorem configure_same_mode:
  "(mode s = Some m \<longrightarrow> configure env m s = (Undefined, s))
   \<and> (mode s \<noteq> Some m \<longrightarrow> (\<exists>p. fst (configure env m s) = Promise p))"
  by (auto simp: configure_def Let_def)

theorem configure_same_mode_witness:
  "configure calm ''memory-only'' (fresh\<lparr>mode := Some ''memory-only''\<rparr>)
     = (Undefined, fresh\<lparr>mode := Some ''memory-only''\<rparr>)
   \<and> mode fresh \<noteq> Some ''memory-only''
   \<and> fst (configure calm ''memory-only'' fresh) = Promise Fulfilled"
  using configure_same_mode [of "fresh\<lparr>mode := Some ''memory-only''\<rparr>" "''memory-only''" calm]
    configure_same_mode [of fresh "''memory-only''" calm]
  by (simp add: fresh_simps fresh_run)

text \<open>
  Claim C7. The claim asks for the IndexedDB implementations when the browser supports
  IndexedDB and for the local-storage ones otherwise. The service tests the function
  \<open>supportsIndexedDB\<close> itself instead of calling it, so its choice never falls on local
  storage: in a browser without IndexedDB, \<open>init\<close> still creates the IndexedDB bucket, and
  \<open>configure\<close>, for the offline-only mode, still adds the IndexedDB source as the backup.
\<close>

theorem indexedDB_chosen_without_support:
  "\<not> supportsIndexedDB without_indexedDB
   \<and> bucket (init without_indexedDB new_service)
       = Some \<lparr>bucket_class = IndexedDBBucket, bucket_namespace = ''peeps-settings''\<rparr>
   \<and> map source_class
         (added_sources
           (new_events (init without_indexedDB new_service)
             (snd (configure without_indexedDB ''offline-only'' (init without_indexedDB new_service)))))
       = [IndexedDBSource]"
proof -
  let ?s = "init without_indexedDB new_service"
  have q: "\<And>h e. \<not> rejects without_indexedDB h e" by (simp add: without_indexedDB_def)
  have h: "mode ?s \<noteq> Some ''offline-only''" by (simp add: init_def new_service_def Let_def)
  have sw: "mode (snd (configure without_indexedDB ''offline-only'' ?s)) = Some ''offline-only''"
    by (rule configure_fulfilled(2) [OF h quiet_fulfilled [OF q h]])
  have "\<not> supportsIndexedDB without_indexedDB"
    by (simp add: supportsIndexedDB_def without_indexedDB_def)
  moreover have "bucket ?s = Some \<lparr>bucket_class = IndexedDBBucket, bucket_namespace = ''peeps-settings''\<rparr>"
    by (simp add: init_def truthy_function_def Let_def)
  moreover have "map source_class
      (added_sources (new_events ?s (snd (configure without_indexedDB ''offline-only'' ?s))))
      = [IndexedDBSource]"
    by (simp add: added_switched(1) [OF h sw] added_sources_build)
  ultimately show ?thesis by (intro conjI)
qed




text \<open>
  Claim C5. Take a call of \<open>configure\<close> with a mode other than the current one, \<open>es\<close> the
  events it adds to the trace, and \<open>before\<close> the events ahead of the first addition of a
  strategy or a source.
  \<^item> When the coordinator is activated, the first call (after the log line) deactivates it.
  \<^item> When the call reaches the new mode, \<open>before\<close> is the log line, the events of
    \<open>clear_events\<close> (for an activated coordinator: the deactivation, the reset of the
    backup source if there is one, the removal of every strategy, and for every source
    the clearing of its log and queues followed by the cache reset for the store and by
    the removal for any other source; nothing otherwise) and the write of the mode to
    \<open>localStorage\<close>.
  \<^item> No activation stands in \<open>before\<close>, and no clearing event follows it.
  \<^item> From the first activation on, no strategy or source is added.
  \<^item> When the coordinator was activated and the new mode is reached, the coordinator
    holds exactly the strategies this call added, and the store followed by the sources
    this call added.
\<close>

theorem configure_order:
  assumes "mode s \<noteq> Some m"
  shows "let s' = snd (configure env m s);
             es = new_events s s';
             before = takeWhile (\<lambda>e. \<not> adds e) es
         in (activated s \<longrightarrow> take 2 es = [mode_log m, Deactivate])
          \<and> (mode s' = Some m \<longrightarrow>
                before = mode_log m # clear_events s @ [LocalStorageSetItem ''peeps-mode'' m])
          \<and> (\<forall>e \<in> set before. e \<noteq> Activate)
          \<and> (\<forall>e \<in> set (drop (length before) es). \<not> clears e)
          \<and> (\<forall>e \<in> set (dropWhile (\<lambda>e. e \<noteq> Activate) es). \<not> adds e)
          \<and> (mode s' = Some m \<and> activated s \<longrightarrow>
                strategies s' = added_strategies es
                \<and> sources s' = filter (\<lambda>src. name src = ''store'') (sources s) @ added_sources es)"
proof -
  let ?s' = "snd (configure env m s)"
  let ?es = "new_events s ?s'"
  let ?before = "takeWhile (\<lambda>e. \<not> adds e) ?es"
  have first: "activated s \<longrightarrow> take 2 ?es = [mode_log m, Deactivate]"
    using configure_starts [OF assms] by blast
  have cleared: "mode ?s' = Some m \<longrightarrow>
      ?before = mode_log m # clear_events s @ [LocalStorageSetItem ''peeps-mode'' m]"
    using switched_shape(1) [OF assms] by blast
  have coord: "mode ?s' = Some m \<and> activated s \<longrightarrow>
      strategies ?s' = added_strategies ?es
      \<and> sources ?s' = filter (\<lambda>src. name src = ''store'') (sources s) @ added_sources ?es"
    using switched_coordinator [OF assms] by blast
  have order: "(\<forall>e \<in> set ?before. e \<noteq> Activate)
      \<and> (\<forall>e \<in> set (drop (length ?before) ?es). \<not> clears e)
      \<and> (\<forall>e \<in> set (dropWhile (\<lambda>e. e \<noteq> Activate) ?es). \<not> adds e)"
  proof (cases "mode ?s' = Some m")
    case True
    from switched_shape(2) [OF assms True] obtain k where
      d: "drop (length ?before) ?es = build_events env m (bucket s) @ take k (activation_events env m)"
      by blast
    from switched_shape(3) [OF assms True] obtain j where
      a: "dropWhile (\<lambda>e. e \<noteq> Activate) ?es = take j (activation_events env m)" by blast
    have "\<forall>e \<in> set ?before. e \<noteq> Activate"
      unfolding switched_shape(1) [OF assms True] by (auto dest: clear_events_quiet)
    moreover have "\<forall>e \<in> set (drop (length ?before) ?es). \<not> clears e"
      unfolding d by (auto dest: build_events_quiet in_set_takeD activation_events_quiet)
    moreover have "\<forall>e \<in> set (dropWhile (\<lambda>e. e \<noteq> Activate) ?es). \<not> adds e"
      unfolding a by (auto dest: in_set_takeD activation_events_quiet)
    ultimately show ?thesis by blast
  next
    case False
    from configure_unswitched [OF assms False] obtain k where
      es: "?es = mode_log m # take k (clear_events s)" by blast
    have "\<forall>e \<in> set ?es. e \<noteq> Activate"
      unfolding es by (auto dest: in_set_takeD clear_events_quiet)
    then have "\<forall>e \<in> set ?before. e \<noteq> Activate"
      unfolding unswitched_shape(1) [OF assms False] .
    then show ?thesis
      unfolding unswitched_shape [OF assms False] by simp
  qed
  show ?thesis unfolding Let_def using first cleared coord order by (intro conjI) blast+
qed

theorem configure_order_witness:
  "mode synced \<noteq> Some ''memory-only''
   \<and> activated synced
   \<and> mode (snd (configure calm ''memory-only'' synced)) = Some ''memory-only''
   \<and> takeWhile (\<lambda>e. \<not> adds e) (new_events synced (snd (configure calm ''memory-only'' synced)))
       = [ConsoleLog [S ''[orbit-configuration]'', S ''mode'', S ''memory-only''],
          Deactivate,
          ConsoleLog [S ''[orbit-configuration]'', S ''resetting browser storage''],
          SourceReset ''backup'',
          ConsoleLog [S ''[orbit-configuration]'', S ''resetting sources and strategies''],
          RemoveStrategy EventLoggingStrategy,
          RemoveStrategy LogTruncationStrategy,
          RemoveStrategy (SyncStrategy ''remote'' ''store'' False),
          RemoveStrategy (pull_strategy False),
          RemoveStrategy optimistic_push_strategy,
          RemoveStrategy pushFail_strategy,
          RemoveStrategy (SyncStrategy ''store'' ''backup'' True),
          TransformLogClear ''store'', RequestQueueClear ''store'', SyncQueueClear ''store'',
          CacheReset ''store'',
          TransformLogClear ''remote'', RequestQueueClear ''remote'', SyncQueueClear ''remote'',
          RemoveSource ''remote'',
          TransformLogClear ''backup'', RequestQueueClear ''backup'', SyncQueueClear ''backup'',
          RemoveSource ''backup'',
          LocalStorageSetItem ''peeps-mode'' ''memory-only'']
   \<and> strategies (snd (configure calm ''memory-only'' synced)) = [EventLoggingStrategy, LogTruncationStrategy]
   \<and> map name (sources (snd (configure calm ''memory-only'' synced))) = [''store'']"
proof -
  have h: "mode synced \<noteq> Some ''memory-only''" by (simp add: synced_simps)
  have sw: "mode (snd (configure calm ''memory-only'' synced)) = Some ''memory-only''"
    by (rule configure_fulfilled(2) [OF h calm_fulfilled [OF h]])
  have added: "added_strategies (new_events synced (snd (configure calm ''memory-only'' synced)))
      = [EventLoggingStrategy, LogTruncationStrategy]"
    "added_sources (new_events synced (snd (configure calm ''memory-only'' synced))) = []"
    by (simp_all add: added_switched [OF h sw] added_strategies_build added_sources_build)
  have clear: "clear_events synced =
         [Deactivate,
          ConsoleLog [S ''[orbit-configuration]'', S ''resetting browser storage''],
          SourceReset ''backup'',
          ConsoleLog [S ''[orbit-configuration]'', S ''resetting sources and strategies''],
          RemoveStrategy EventLoggingStrategy,
          RemoveStrategy LogTruncationStrategy,
          RemoveStrategy (SyncStrategy ''remote'' ''store'' False),
          RemoveStrategy (pull_strategy False),
          RemoveStrategy optimistic_push_strategy,
          RemoveStrategy pushFail_strategy,
          RemoveStrategy (SyncStrategy ''store'' ''backup'' True),
          TransformLogClear ''store'', RequestQueueClear ''store'', SyncQueueClear ''store'',
          CacheReset ''store'',
          TransformLogClear ''remote'', RequestQueueClear ''remote'', SyncQueueClear ''remote'',
          RemoveSource ''remote'',
          TransformLogClear ''backup'', RequestQueueClear ''backup'', SyncQueueClear ''backup'',
          RemoveSource ''backup'']"
    by (simp add: clear_events_def synced_simps fresh_sources added_strategies_build added_sources_build
        reset_events_def)
  note order = configure_order [OF h, of calm, unfolded Let_def]
  from order [THEN conjunct2, THEN conjunct1] sw
  have before: "takeWhile (\<lambda>e. \<not> adds e) (new_events synced (snd (configure calm ''memory-only'' synced)))
      = mode_log ''memory-only'' # clear_events synced @ [LocalStorageSetItem ''peeps-mode'' ''memory-only'']"
    by (rule mp)
  from order [THEN conjunct2, THEN conjunct2, THEN conjunct2, THEN conjunct2, THEN conjunct2]
    sw synced_simps(2)
  have coord: "strategies (snd (configure calm ''memory-only'' synced))
        = added_strategies (new_events synced (snd (configure calm ''memory-only'' synced)))
      \<and> sources (snd (configure calm ''memory-only'' synced))
        = filter (\<lambda>src. name src = ''store'') (sources synced)
          @ added_sources (new_events synced (snd (configure calm ''memory-only'' synced)))"
    by blast
  have stores: "map name (filter (\<lambda>src. name src = ''store'') (sources synced)) = [''store'']"
    by (simp add: synced_simps(5) fresh_sources added_sources_build)
  show ?thesis
    unfolding before coord [THEN conjunct1] coord [THEN conjunct2] added clear
    using h sw synced_simps(2) stores by (simp add: mode_log_def)
qed




text \<open>
  Claim C9. After a fulfilled call of \<open>configure\<close> with a new mode, one of the listed
  modes, the mode is stored under the key \<open>peeps-mode\<close>, and it was written before the
  first strategy or source was added. \<open>initialize\<close> configures offline-only when nothing is
  stored under that key, and the stored mode when a listed mode is stored there. Hence
  the mode chosen in one session is the one the next \<open>initialize\<close>, over the same browser
  storage, configures.
\<close>

theorem mode_persisted:
  assumes "m \<in> set (map mode_id availableModes)"
    and "mode s \<noteq> Some m" and "fst (configure env m s) = Promise Fulfilled"
  shows "let s' = snd (configure env m s);
             es = new_events s s'
         in localStorage s' ''peeps-mode'' = Some m
          \<and> LocalStorageSetItem ''peeps-mode'' m \<in> set (takeWhile (\<lambda>e. \<not> adds e) es)
          \<and> (\<forall>env' t. localStorage t ''peeps-mode'' = None \<longrightarrow>
                initialize env' t = configure env' ''offline-only'' t)
          \<and> (\<forall>env' t. \<forall>v \<in> set (map mode_id availableModes).
                localStorage t ''peeps-mode'' = Some v \<longrightarrow> initialize env' t = configure env' v t)
          \<and> (\<forall>env' t. localStorage t = localStorage s' \<longrightarrow> initialize env' t = configure env' m t)"
proof -
  let ?s' = "snd (configure env m s)"
  have listed: "\<forall>v \<in> set (map mode_id availableModes). v \<noteq> []"
    by (simp add: availableModes_def)
  with assms(1) have ne: "m \<noteq> []" by blast
  have stored: "localStorage ?s' ''peeps-mode'' = Some m"
    by (simp add: configure_fulfilled(3) [OF assms(2,3)])
  have "takeWhile (\<lambda>e. \<not> adds e) (new_events s ?s')
      = mode_log m # clear_events s @ [LocalStorageSetItem ''peeps-mode'' m]"
    by (rule switched_shape(1) [OF assms(2) configure_fulfilled(2) [OF assms(2,3)]])
  then have early: "LocalStorageSetItem ''peeps-mode'' m \<in> set (takeWhile (\<lambda>e. \<not> adds e) (new_events s ?s'))"
    by simp
  have default: "\<forall>env' t. localStorage t ''peeps-mode'' = None \<longrightarrow>
      initialize env' t = configure env' ''offline-only'' t"
    by (simp add: initialize_unfold)
  have given: "\<forall>env' t. \<forall>v \<in> set (map mode_id availableModes).
      localStorage t ''peeps-mode'' = Some v \<longrightarrow> initialize env' t = configure env' v t"
    using listed by (auto simp: initialize_unfold)
  have restored: "\<forall>env' t. localStorage t = localStorage ?s' \<longrightarrow> initialize env' t = configure env' m t"
    using stored ne by (simp add: initialize_unfold)
  show ?thesis unfolding Let_def using stored early default given restored by (intro conjI)
qed

theorem mode_persisted_witness:
  "''pessimistic-server'' \<in> set (map mode_id availableModes)
   \<and> mode fresh \<noteq> Some ''pessimistic-server''
   \<and> fst (configure calm ''pessimistic-server'' fresh) = Promise Fulfilled
   \<and> localStorage (snd (configure calm ''pessimistic-server'' fresh)) ''peeps-mode''
       = Some ''pessimistic-server''
   \<and> initialize calm (fresh\<lparr>localStorage := localStorage (snd (configure calm ''pessimistic-server'' fresh))\<rparr>)
       = configure calm ''pessimistic-server''
           (fresh\<lparr>localStorage := localStorage (snd (configure calm ''pessimistic-server'' fresh))\<rparr>)
   \<and> mode (snd (initialize calm
         (fresh\<lparr>localStorage := localStorage (snd (configure calm ''pessimistic-server'' fresh))\<rparr>)))
       = Some ''pessimistic-server''"
proof -
  let ?t = "fresh\<lparr>localStorage := localStorage (snd (configure calm ''pessimistic-server'' fresh))\<rparr>"
  have l: "''pessimistic-server'' \<in> set (map mode_id availableModes)"
    by (simp add: availableModes_def)
  have h: "mode fresh \<noteq> Some ''pessimistic-server''" by (simp add: fresh_simps)
  note p = mode_persisted [OF l h fresh_run(2), unfolded Let_def]
  from p [THEN conjunct2, THEN conjunct2, THEN conjunct2, THEN conjunct2]
  have again: "initialize calm ?t = configure calm ''pessimistic-server'' ?t"
    by simp
  have t: "mode ?t \<noteq> Some ''pessimistic-server''" by (simp add: fresh_simps)
  have "mode (snd (initialize calm ?t)) = Some ''pessimistic-server''"
    unfolding again by (rule configure_fulfilled(2) [OF t calm_fulfilled [OF t]])
  with l h fresh_run(2) p [THEN conjunct1] again show ?thesis by blast
qed

text \<open>
  Claim C1, amended. Once \<open>configure\<close> has switched the service to the optimistic-server
  mode, a push to the remote source that fails with an error other than a NetworkError
  runs one handler, which returns normally after these calls: an alert, worded with the
  transform's label when its options carry a non-empty one and generic otherwise; when
  the store's transform log contains the transform's id, a log line and the rollback of
  the store to relative position -1 of that id; and the skip of the remote source's
  request queue.
\<close>

theorem pushFail_other_error:
  assumes "mode s \<noteq> Some ''optimistic-server''"
    and "mode (snd (configure env ''optimistic-server'' s)) = Some ''optimistic-server''"
    and "\<not> instanceof_NetworkError e"
  shows "on_failure ''push''
           (added_strategies (new_events s (snd (configure env ''optimistic-server'' s)))) storeLog t e =
         [(Alert (case options t of
                    None \<Rightarrow> ''Unable to complete operation''
                  | Some opts \<Rightarrow>
                      (case label opts of
                         None \<Rightarrow> ''Unable to complete operation''
                       | Some l \<Rightarrow>
                           if l = [] then ''Unable to complete operation''
                           else ''Unable to complete '' @ [CHR 0x22] @ l @ [CHR 0x22]))
           # (if transform_id t \<in> set storeLog
              then [ConsoleLog [S ''Rolling back - transform:'', S (transform_id t)],
                    StoreRollback (transform_id t) (- 1)]
              else [])
           @ [RequestQueueSkip ''remote''],
           Returned)]"
proof -
  have "on_failure ''push''
          (added_strategies (new_events s (snd (configure env ''optimistic-server'' s)))) storeLog t e
        = [pushFail_action storeLog t e]"
    unfolding added_switched(2) [OF assms(1,2)] by (simp add: on_failure_build)
  also have "pushFail_action storeLog t e =
         (Alert (case options t of
                    None \<Rightarrow> ''Unable to complete operation''
                  | Some opts \<Rightarrow>
                      (case label opts of
                         None \<Rightarrow> ''Unable to complete operation''
                       | Some l \<Rightarrow>
                           if l = [] then ''Unable to complete operation''
                           else ''Unable to complete '' @ [CHR 0x22] @ l @ [CHR 0x22]))
           # (if transform_id t \<in> set storeLog
              then [ConsoleLog [S ''Rolling back - transform:'', S (transform_id t)],
                    StoreRollback (transform_id t) (- 1)]
              else [])
           @ [RequestQueueSkip ''remote''],
           Returned)"
    using assms(3) by (simp add: pushFail_action_def Let_def split: option.splits)
  finally show ?thesis .
qed

theorem pushFail_other_error_witness:
  "mode fresh \<noteq> Some ''optimistic-server''
   \<and> mode (snd (configure calm ''optimistic-server'' fresh)) = Some ''optimistic-server''
   \<and> \<not> instanceof_NetworkError (ClientError ''422'')
   \<and> on_failure ''push''
        (added_strategies (new_events fresh (snd (configure calm ''optimistic-server'' fresh))))
        [''t0'', ''t1'']
        \<lparr>transform_id = ''t1'', options = Some \<lparr>label = Some ''Add contact''\<rparr>\<rparr>
        (ClientError ''422'')
      = [([Alert (''Unable to complete '' @ [CHR 0x22] @ ''Add contact'' @ [CHR 0x22]),
           ConsoleLog [S ''Rolling back - transform:'', S ''t1''],
           StoreRollback ''t1'' (- 1),
           RequestQueueSkip ''remote''], Returned)]
   \<and> on_failure ''push''
        (added_strategies (new_events fresh (snd (configure calm ''optimistic-server'' fresh))))
        [''t0'']
        \<lparr>transform_id = ''t1'', options = None\<rparr>
        (OtherError ''boom'')
      = [([Alert ''Unable to complete operation'', RequestQueueSkip ''remote''], Returned)]"
proof -
  have h: "mode fresh \<noteq> Some ''optimistic-server''" by (simp add: fresh_simps)
  have e1: "\<not> instanceof_NetworkError (ClientError ''422'')"
    and e2: "\<not> instanceof_NetworkError (OtherError ''boom'')" by simp_all
  note w1 = pushFail_other_error [OF h fresh_run(3) e1, of "[''t0'', ''t1'']"
      "\<lparr>transform_id = ''t1'', options = Some \<lparr>label = Some ''Add contact''\<rparr>\<rparr>"]
  note w2 = pushFail_other_error [OF h fresh_run(3) e2, of "[''t0'']"
      "\<lparr>transform_id = ''t1'', options = None\<rparr>"]
  from w1 have 1: "on_failure ''push''
        (added_strategies (new_events fresh (snd (configure calm ''optimistic-server'' fresh))))
        [''t0'', ''t1'']
        \<lparr>transform_id = ''t1'', options = Some \<lparr>label = Some ''Add contact''\<rparr>\<rparr>
        (ClientError ''422'')
      = [([Alert (''Unable to complete '' @ [CHR 0x22] @ ''Add contact'' @ [CHR 0x22]),
           ConsoleLog [S ''Rolling back - transform:'', S ''t1''],
           StoreRollback ''t1'' (- 1),
           RequestQueueSkip ''remote''], Returned)]"
    by simp
  from w2 have 2: "on_failure ''push''
        (added_strategies (new_events fresh (snd (configure calm ''optimistic-server'' fresh))))
        [''t0'']
        \<lparr>transform_id = ''t1'', options = None\<rparr>
        (OtherError ''boom'')
      = [([Alert ''Unable to complete operation'', RequestQueueSkip ''remote''], Returned)]"
    by simp
  from h fresh_run(3) e1 1 2 show ?thesis by blast
qed

text \<open>
  Claim C1 as stated, for every failing push, does not hold in the pessimistic-server
  mode: there the \<open>catch\<close> of the update strategy logs the error, skips the request
  queues of the store and of the remote source and rethrows. No alert, no rollback, though
  the transform is in the store's log.
\<close>

theorem pessimistic_push_no_alert:
  "on_failure ''push''
     (added_strategies (new_events fresh (snd (configure calm ''pessimistic-server'' fresh))))
     [''t0'', ''t1'']
     \<lparr>transform_id = ''t1'', options = Some \<lparr>label = Some ''Add contact''\<rparr>\<rparr>
     (ClientError ''422'')
   = [([ConsoleLog [S ''error performing remote.push'', E (ClientError ''422'')],
        RequestQueueSkip ''store'', RequestQueueSkip ''remote''],
       Threw (ClientError ''422''))]"
  by (simp add: fresh_added(2) on_failure_build)

text \<open>
  Claim C2, amended. Once \<open>configure\<close> has switched the service to the optimistic-server
  mode, a push to the remote source that fails with a NetworkError runs one handler,
  which logs a line and sets a timer of 5000 milliseconds whose callback retries the
  remote source's request queue; it makes no other call, so no alert and no rollback.
\<close>

theorem pushFail_network_error:
  assumes "mode s \<noteq> Some ''optimistic-server''"
    and "mode (snd (configure env ''optimistic-server'' s)) = Some ''optimistic-server''"
    and "instanceof_NetworkError e"
  shows "on_failure ''push''
           (added_strategies (new_events s (snd (configure env ''optimistic-server'' s)))) storeLog t e =
         [([ConsoleLog [S ''NetworkError - will try again soon''],
            SetTimeout RetryRemoteRequestQueue 5000], Returned)]
       \<and> run_timer_callback RetryRemoteRequestQueue = [RequestQueueRetry ''remote'']"
proof -
  have "on_failure ''push''
          (added_strategies (new_events s (snd (configure env ''optimistic-server'' s)))) storeLog t e
        = [pushFail_action storeLog t e]"
    unfolding added_switched(2) [OF assms(1,2)] by (simp add: on_failure_build)
  with assms(3) show ?thesis by (simp add: pushFail_action_def)
qed

theorem pushFail_network_error_witness:
  "mode fresh \<noteq> Some ''optimistic-server''
   \<and> mode (snd (configure calm ''optimistic-server'' fresh)) = Some ''optimistic-server''
   \<and> instanceof_NetworkError (NetworkError ''offline'')
   \<and> on_failure ''push''
        (added_strategies (new_events fresh (snd (configure calm ''optimistic-server'' fresh))))
        [''t0'', ''t1'']
        \<lparr>transform_id = ''t1'', options = Some \<lparr>label = Some ''Add contact''\<rparr>\<rparr>
        (NetworkError ''offline'')
      = [([ConsoleLog [S ''NetworkError - will try again soon''],
           SetTimeout RetryRemoteRequestQueue 5000], Returned)]
   \<and> run_timer_callback RetryRemoteRequestQueue = [RequestQueueRetry ''remote'']"
proof -
  have h: "mode fresh \<noteq> Some ''optimistic-server''" by (simp add: fresh_simps)
  have e: "instanceof_NetworkError (NetworkError ''offline'')" by simp
  from h fresh_run(3) e pushFail_network_error [OF h fresh_run(3) e] show ?thesis by blast
qed

text \<open>
  Claim C2 as stated, for every failing push, does not hold in the pessimistic-server
  mode: a NetworkError there is logged and rethrown after both request queues are
  skipped, and no retry is scheduled.
\<close>

theorem pessimistic_push_no_retry:
  "on_failure ''push''
     (added_strategies (new_events fresh (snd (configure calm ''pessimistic-server'' fresh))))
     [''t0'', ''t1'']
     \<lparr>transform_id = ''t1'', options = Some \<lparr>label = Some ''Add contact''\<rparr>\<rparr>
     (NetworkError ''offline'')
   = [([ConsoleLog [S ''error performing remote.push'', E (NetworkError ''offline'')],
        RequestQueueSkip ''store'', RequestQueueSkip ''remote''],
       Threw (NetworkError ''offline''))]"
  by (simp add: fresh_added(2) on_failure_build)

text \<open>
  Claim C3, amended. The handlers a configuration installs for failures of the remote
  source are, by mode: for a failed push, the \<open>catch\<close> of the update strategy in the
  pessimistic-server mode, the \<open>pushFail\<close> action (retry on a NetworkError, alert and
  rollback otherwise) in the optimistic-server mode, none in any other mode; for a failed
  pull, the \<open>catch\<close> of the query strategy in both server modes, none otherwise. Either
  \<open>catch\<close> is a third policy: it logs the error, skips the request queue of the store and
  that of the remote source, and rethrows the error.
\<close>

theorem failure_policies:
  assumes "mode s \<noteq> Some m" and "mode (snd (configure env m s)) = Some m"
  shows "let installed = added_strategies (new_events s (snd (configure env m s)))
         in map snd (failure_handlers ''push'' installed) =
              (if m = ''pessimistic-server'' then [CatchPush]
               else if m = ''optimistic-server'' then [PushFailAction] else [])
          \<and> map snd (failure_handlers ''pull'' installed) =
              (if m = ''pessimistic-server'' \<or> m = ''optimistic-server'' then [CatchPull] else [])
          \<and> on_failure ''push'' installed storeLog t e =
              (if m = ''pessimistic-server''
               then [([ConsoleLog [S ''error performing remote.push'', E e],
                       RequestQueueSkip ''store'', RequestQueueSkip ''remote''], Threw e)]
               else if m = ''optimistic-server'' then [pushFail_action storeLog t e]
               else [])
          \<and> on_failure ''pull'' installed storeLog t e =
              (if m = ''pessimistic-server'' \<or> m = ''optimistic-server''
               then [([ConsoleLog [S ''error performing remote.pull'', E e],
                       RequestQueueSkip ''store'', RequestQueueSkip ''remote''], Threw e)]
               else [])"
  unfolding Let_def added_switched(2) [OF assms] on_failure_build handlers_build
  by simp

theorem failure_policies_witness:
  "mode fresh \<noteq> Some ''pessimistic-server''
   \<and> mode (snd (configure calm ''pessimistic-server'' fresh)) = Some ''pessimistic-server''
   \<and> map snd (failure_handlers ''push''
        (added_strategies (new_events fresh (snd (configure calm ''pessimistic-server'' fresh)))))
      = [CatchPush]
   \<and> map snd (failure_handlers ''pull''
        (added_strategies (new_events fresh (snd (configure calm ''pessimistic-server'' fresh)))))
      = [CatchPull]
   \<and> mode fresh \<noteq> Some ''offline-only''
   \<and> mode (snd (configure calm ''offline-only'' fresh)) = Some ''offline-only''
   \<and> failure_handlers ''push''
        (added_strategies (new_events fresh (snd (configure calm ''offline-only'' fresh)))) = []"
proof -
  have h1: "mode fresh \<noteq> Some ''pessimistic-server''" and h2: "mode fresh \<noteq> Some ''offline-only''"
    by (simp_all add: fresh_simps)
  note p1 = failure_policies [OF h1 fresh_run(3), unfolded Let_def]
  note p2 = failure_policies [OF h2 fresh_run(3), unfolded Let_def]
  from p1 [THEN conjunct1] have a: "map snd (failure_handlers ''push''
        (added_strategies (new_events fresh (snd (configure calm ''pessimistic-server'' fresh)))))
      = [CatchPush]" by simp
  from p1 [THEN conjunct2, THEN conjunct1] have b: "map snd (failure_handlers ''pull''
        (added_strategies (new_events fresh (snd (configure calm ''pessimistic-server'' fresh)))))
      = [CatchPull]" by simp
  from p2 [THEN conjunct1] have c: "failure_handlers ''push''
        (added_strategies (new_events fresh (snd (configure calm ''offline-only'' fresh)))) = []" by simp
  from h1 h2 fresh_run(3) a b c show ?thesis by blast
qed

text \<open>
  Claim C3 as stated, two policies for every failure in every mode, fails on a pull: in
  the optimistic-server mode a pull that fails with a NetworkError is logged and
  rethrown after both request queues are skipped; no retry is scheduled.
\<close>

theorem pull_failure_rethrown:
  "on_failure ''pull''
     (added_strategies (new_events fresh (snd (configure calm ''optimistic-server'' fresh))))
     [''t0'', ''t1'']
     \<lparr>transform_id = ''q1'', options = None\<rparr>
     (NetworkError ''offline'')
   = [([ConsoleLog [S ''error performing remote.pull'', E (NetworkError ''offline'')],
        RequestQueueSkip ''store'', RequestQueueSkip ''remote''],
       Threw (NetworkError ''offline''))]"
  by (simp add: fresh_added(2) on_failure_build)

end
